theory Spec2Isabelle
  imports Main
begin

section \<open>The JavaScript Date object, as far as App.tsx uses it\<close>

text \<open>
  App.tsx keeps its calendar cursor in a JavaScript \<open>Date\<close> and converts between dates and
  strings with \<open>new Date(...)\<close>, \<open>toISOString\<close>, \<open>toTimeString\<close>, \<open>getDate\<close>,
  \<open>getDay\<close>, \<open>setMonth\<close> and friends. These are defined by ECMA-262 (section
  "Date Objects") through a handful of arithmetic operations on time values, which are
  milliseconds since 1970-01-01T00:00:00Z. The definitions below follow those operations
  under their ECMA-262 names.

  A time value is an \<open>int\<close>; a Date object is an \<open>int option\<close>, where \<open>None\<close> is the
  NaN time value of an "Invalid Date". The local time zone is a parameter \<open>tza\<close>: the
  offset of local time from UTC in milliseconds (3600000 for British Summer Time), taken
  as constant: the transitions of daylight saving time are not modelled, so the general
  lemmas below speak of zones with a fixed offset.
\<close>

definition msPerDay :: int where "msPerDay = 86400000"
definition msPerHour :: int where "msPerHour = 3600000"
definition msPerMinute :: int where "msPerMinute = 60000"
definition msPerSecond :: int where "msPerSecond = 1000"

definition Day :: "int \<Rightarrow> int" where
  "Day t = t div msPerDay"

definition TimeWithinDay :: "int \<Rightarrow> int" where
  "TimeWithinDay t = t mod msPerDay"

definition DaysInYear :: "int \<Rightarrow> int" where
  "DaysInYear y =
     (if y mod 4 \<noteq> 0 then 365
      else if y mod 100 \<noteq> 0 then 366
      else if y mod 400 \<noteq> 0 then 365
      else 366)"

definition DayFromYear :: "int \<Rightarrow> int" where
  "DayFromYear y =
     365 * (y - 1970) + (y - 1969) div 4 - (y - 1901) div 100 + (y - 1601) div 400"

text \<open>
  ECMA-262 defines \<open>YearFromTime(t)\<close> as the largest \<open>y\<close> with
  \<open>TimeFromYear(y) \<le> t\<close>. The executable form estimates the year from the mean length
  of a Gregorian year (146097 days in 400 years) and corrects the estimate by at most one;
  lemmas \<open>YearFromDay_bounds\<close> and \<open>YearFromDay_unique\<close> below show that it is that
  largest \<open>y\<close>.
\<close>

definition YearFromDay :: "int \<Rightarrow> int" where
  "YearFromDay d =
     (let y0 = 1970 + (400 * d) div 146097 in
      if d < DayFromYear y0 then y0 - 1
      else if DayFromYear (y0 + 1) \<le> d then y0 + 1
      else y0)"

definition YearFromTime :: "int \<Rightarrow> int" where
  "YearFromTime t = YearFromDay (Day t)"

definition InLeapYear :: "int \<Rightarrow> int" where
  "InLeapYear t = (if DaysInYear (YearFromTime t) = 366 then 1 else 0)"

definition DayWithinYear :: "int \<Rightarrow> int" where
  "DayWithinYear t = Day t - DayFromYear (YearFromTime t)"

definition MonthFromTime :: "int \<Rightarrow> int" where
  "MonthFromTime t =
     (let d = DayWithinYear t; l = InLeapYear t in
      if d < 31 then 0
      else if d < 59 + l then 1
      else if d < 90 + l then 2
      else if d < 120 + l then 3
      else if d < 151 + l then 4
      else if d < 181 + l then 5
      else if d < 212 + l then 6
      else if d < 243 + l then 7
      else if d < 273 + l then 8
      else if d < 304 + l then 9
      else if d < 334 + l then 10
      else 11)"

definition DateFromTime :: "int \<Rightarrow> int" where
  "DateFromTime t =
     (let d = DayWithinYear t; l = InLeapYear t; m = MonthFromTime t in
      if m = 0 then d + 1
      else if m = 1 then d - 30
      else if m = 2 then d - 58 - l
      else if m = 3 then d - 89 - l
      else if m = 4 then d - 119 - l
      else if m = 5 then d - 150 - l
      else if m = 6 then d - 180 - l
      else if m = 7 then d - 211 - l
      else if m = 8 then d - 242 - l
      else if m = 9 then d - 272 - l
      else if m = 10 then d - 303 - l
      else d - 333 - l)"

definition WeekDay :: "int \<Rightarrow> int" where
  "WeekDay t = (Day t + 4) mod 7"

definition HourFromTime :: "int \<Rightarrow> int" where
  "HourFromTime t = (t div msPerHour) mod 24"

definition MinFromTime :: "int \<Rightarrow> int" where
  "MinFromTime t = (t div msPerMinute) mod 60"

definition SecFromTime :: "int \<Rightarrow> int" where
  "SecFromTime t = (t div msPerSecond) mod 60"

definition msFromTime :: "int \<Rightarrow> int" where
  "msFromTime t = t mod msPerSecond"

definition LocalTime :: "int \<Rightarrow> int \<Rightarrow> int" where
  "LocalTime tza t = t + tza"

definition UTC :: "int \<Rightarrow> int \<Rightarrow> int" where
  "UTC tza t = t - tza"

definition MakeTime :: "int \<Rightarrow> int \<Rightarrow> int \<Rightarrow> int \<Rightarrow> int" where
  "MakeTime hour minute sec ms = hour * msPerHour + minute * msPerMinute + sec * msPerSecond + ms"

text \<open>
  \<open>DayFromMonth mn l\<close> is the number of days of a year that precede month \<open>mn\<close>
  (0 = January), \<open>l\<close> being 1 in a leap year and 0 otherwise: the lower bounds of the
  \<open>MonthFromTime\<close> table.
\<close>

definition DayFromMonth :: "int \<Rightarrow> int \<Rightarrow> int" where
  "DayFromMonth mn l =
     (if mn = 0 then 0
      else if mn = 1 then 31
      else if mn = 2 then 59 + l
      else if mn = 3 then 90 + l
      else if mn = 4 then 120 + l
      else if mn = 5 then 151 + l
      else if mn = 6 then 181 + l
      else if mn = 7 then 212 + l
      else if mn = 8 then 243 + l
      else if mn = 9 then 273 + l
      else if mn = 10 then 304 + l
      else 334 + l)"

text \<open>
  \<open>MakeDay(year, month, date)\<close>: month numbers outside 0..11 carry into the year, and
  the date is added to the day number of the first of the month without any range check,
  so that day 0 is the last day of the month before and day 31 of a 30-day month is the
  first of the next.
\<close>

definition MakeDay :: "int \<Rightarrow> int \<Rightarrow> int \<Rightarrow> int" where
  "MakeDay year month date =
     (let ym = year + month div 12;
          mn = month mod 12
      in DayFromYear ym + DayFromMonth mn (if DaysInYear ym = 366 then 1 else 0) + date - 1)"

definition MakeDate :: "int \<Rightarrow> int \<Rightarrow> int" where
  "MakeDate day time = day * msPerDay + time"

text \<open>
  A JavaScript number that this program computes is an integer or NaN: \<open>None\<close> is NaN.
  A Date object holds a time value or NaN.
\<close>

type_synonym number = "int option"
type_synonym Date = "int option"

definition TimeClip :: "int \<Rightarrow> Date" where
  "TimeClip t = (if \<bar>t\<bar> > 8640000000000000 then None else Some t)"

text \<open>
  \<open>new Date(year, month, day)\<close> reads its arguments as local time; a year from 0 to 99
  means 1900 + year (\<open>MakeFullYear\<close>).
\<close>

definition MakeFullYear :: "int \<Rightarrow> int" where
  "MakeFullYear year = (if 0 \<le> year \<and> year \<le> 99 then 1900 + year else year)"

definition Date_ymd :: "int \<Rightarrow> number \<Rightarrow> number \<Rightarrow> number \<Rightarrow> Date" where
  "Date_ymd tza year month day =
     (case (year, month, day) of
        (Some y, Some m, Some dt) \<Rightarrow>
          TimeClip (UTC tza (MakeDate (MakeDay (MakeFullYear y) m dt) (MakeTime 0 0 0 0)))
      | _ \<Rightarrow> None)"

definition getFullYear :: "int \<Rightarrow> Date \<Rightarrow> number" where
  "getFullYear tza d = map_option (\<lambda>t. YearFromTime (LocalTime tza t)) d"

definition getMonth :: "int \<Rightarrow> Date \<Rightarrow> number" where
  "getMonth tza d = map_option (\<lambda>t. MonthFromTime (LocalTime tza t)) d"

definition getDate :: "int \<Rightarrow> Date \<Rightarrow> number" where
  "getDate tza d = map_option (\<lambda>t. DateFromTime (LocalTime tza t)) d"

definition getDay :: "int \<Rightarrow> Date \<Rightarrow> number" where
  "getDay tza d = map_option (\<lambda>t. WeekDay (LocalTime tza t)) d"

definition getHours :: "int \<Rightarrow> Date \<Rightarrow> number" where
  "getHours tza d = map_option (\<lambda>t. HourFromTime (LocalTime tza t)) d"

definition getMinutes :: "int \<Rightarrow> Date \<Rightarrow> number" where
  "getMinutes tza d = map_option (\<lambda>t. MinFromTime (LocalTime tza t)) d"

text \<open>
  \<open>date.setMonth(month)\<close> keeps the day of the month and the time of day of the local
  time and replaces the month: \<open>MakeDay\<close> then carries a day that the new month does not
  have into the month after.
\<close>

definition setMonth :: "int \<Rightarrow> Date \<Rightarrow> number \<Rightarrow> Date" where
  "setMonth tza d month =
     (case (d, month) of
        (Some tv, Some m) \<Rightarrow>
          (let t = LocalTime tza tv;
               newDate = MakeDate (MakeDay (YearFromTime t) m (DateFromTime t)) (TimeWithinDay t)
           in TimeClip (UTC tza newDate))
      | _ \<Rightarrow> None)"

section \<open>Strings\<close>

text \<open>
  Decimal digits, \<open>Number.prototype.toString\<close> on integers, \<open>String.prototype.padStart\<close>,
  \<open>split\<close> and \<open>slice(0, n)\<close>.
\<close>

definition decimal_digits :: string where
  "decimal_digits = ''0123456789''"

definition digit_char :: "nat \<Rightarrow> char" where
  "digit_char n = decimal_digits ! (n mod 10)"

fun position :: "char \<Rightarrow> string \<Rightarrow> int \<Rightarrow> int option" where
  "position c [] i = None"
| "position c (x # xs) i = (if x = c then Some i else position c xs (i + 1))"

definition digit_of :: "char \<Rightarrow> int option" where
  "digit_of c = position c decimal_digits 0"

fun show_nat :: "nat \<Rightarrow> string" where
  "show_nat n = (if n < 10 then [digit_char n] else show_nat (n div 10) @ [digit_char (n mod 10)])"

definition toString :: "int \<Rightarrow> string" where
  "toString i = (if i < 0 then CHR ''-'' # show_nat (nat (- i)) else show_nat (nat i))"

definition Number_toString :: "number \<Rightarrow> string" where
  "Number_toString n = (case n of None \<Rightarrow> ''NaN'' | Some i \<Rightarrow> toString i)"

definition padStart :: "nat \<Rightarrow> char \<Rightarrow> string \<Rightarrow> string" where
  "padStart n c s = replicate (n - length s) c @ s"

fun split :: "char \<Rightarrow> string \<Rightarrow> string list" where
  "split sep [] = [[]]"
| "split sep (c # cs) =
     (if c = sep then [] # split sep cs
      else (case split sep cs of
              [] \<Rightarrow> [[c]]
            | piece # pieces \<Rightarrow> (c # piece) # pieces))"

text \<open>
  \<open>s.split(sep)[0]\<close>: the part of \<open>s\<close> before the first separator (\<open>split\<close> never
  returns an empty array, lemma \<open>split_not_Nil\<close>).
\<close>

definition split0 :: "char \<Rightarrow> string \<Rightarrow> string" where
  "split0 sep s = (case split sep s of [] \<Rightarrow> [] | piece # pieces \<Rightarrow> piece)"

text \<open>Indexing a JavaScript array beyond its end gives \<open>undefined\<close>: here \<open>None\<close>.\<close>

fun index :: "'a list \<Rightarrow> nat \<Rightarrow> 'a option" where
  "index [] i = None"
| "index (x # xs) 0 = Some x"
| "index (x # xs) (Suc i) = index xs i"

text \<open>
  \<open>Number(s)\<close> on a string. The time strings of this program consist of decimal digits
  and colons, so the model covers strings of decimal digits (the empty string is 0) and
  maps every other string to NaN (\<open>None\<close>).
\<close>

fun digits_value :: "int \<Rightarrow> string \<Rightarrow> int option" where
  "digits_value acc [] = Some acc"
| "digits_value acc (c # cs) =
     (case digit_of c of
        None \<Rightarrow> None
      | Some v \<Rightarrow> digits_value (10 * acc + v) cs)"

definition Number :: "string \<Rightarrow> number" where
  "Number s = digits_value 0 s"

subsection \<open>Date to string\<close>

datatype error = RangeError

text \<open>
  \<open>toISOString\<close> prints the UTC fields of the time value as
  \<open>YYYY-MM-DDTHH:mm:ss.sssZ\<close> (years outside 0..9999 with a sign and six digits) and
  throws a RangeError on an invalid date.
\<close>

definition pad :: "nat \<Rightarrow> int \<Rightarrow> string" where
  "pad n i = padStart n (CHR ''0'') (toString i)"

definition isoYear :: "int \<Rightarrow> string" where
  "isoYear y =
     (if 0 \<le> y \<and> y \<le> 9999 then pad 4 y
      else if y < 0 then CHR ''-'' # pad 6 (- y)
      else CHR ''+'' # pad 6 y)"

definition isoString :: "int \<Rightarrow> string" where
  "isoString t =
     isoYear (YearFromTime t) @ ''-'' @ pad 2 (MonthFromTime t + 1) @ ''-'' @ pad 2 (DateFromTime t)
     @ ''T'' @ pad 2 (HourFromTime t) @ '':'' @ pad 2 (MinFromTime t) @ '':'' @ pad 2 (SecFromTime t)
     @ ''.'' @ pad 3 (msFromTime t) @ ''Z''"

definition toISOString :: "Date \<Rightarrow> error + string" where
  "toISOString d = (case d of None \<Rightarrow> Inl RangeError | Some t \<Rightarrow> Inr (isoString t))"

text \<open>
  \<open>toTimeString\<close> prints the local time of day and the zone offset,
  \<open>HH:mm:ss GMT+hhmm\<close>, followed by an implementation-defined zone name in brackets that
  is left out here (App.tsx reads the first five characters only).
\<close>

definition toTimeString :: "int \<Rightarrow> Date \<Rightarrow> string" where
  "toTimeString tza d =
     (case d of
        None \<Rightarrow> ''Invalid Date''
      | Some tv \<Rightarrow>
          (let t = LocalTime tza tv in
           pad 2 (HourFromTime t) @ '':'' @ pad 2 (MinFromTime t) @ '':'' @ pad 2 (SecFromTime t)
           @ '' GMT'' @ (if tza < 0 then ''-'' else ''+'')
           @ pad 2 (\<bar>tza\<bar> div msPerHour) @ pad 2 ((\<bar>tza\<bar> div msPerMinute) mod 60)))"

subsection \<open>String to date\<close>

text \<open>
  \<open>new Date(s)\<close> on a string. Every deadline string of this program is built by
  \<open>updateDeadline\<close> as \<open>date + 'T' + time + ':00'\<close>, so the model covers the forms of
  the ECMA-262 date-time string format that end in hours, minutes and seconds and name no
  zone, which are read as local time: \<open>YYYY-MM-DDTHH:mm:ss\<close> and, with an expanded
  year, \<open>+YYYYYY-MM-DDTHH:mm:ss\<close> and \<open>-YYYYYY-MM-DDTHH:mm:ss\<close> (the year -000000
  is not allowed). A string outside the format, which ECMA-262 leaves to the
  implementation, is taken to be an Invalid Date. Fields are checked against the ranges
  of the format (month 01..12, day 01..31, hour 00..24, minute and second 00..59, hour 24
  only as 24:00:00); a day that the month does not have is carried over by \<open>MakeDay\<close>.

  \<open>parseFields tza ysign yw s\<close> reads a string whose year has \<open>yw\<close> digits and the sign
  \<open>ysign\<close>.
\<close>

definition parseFields :: "int \<Rightarrow> int \<Rightarrow> nat \<Rightarrow> string \<Rightarrow> Date" where
  "parseFields tza ysign yw s =
     (if length s = yw + 15 \<and> s ! yw = CHR ''-'' \<and> s ! (yw + 3) = CHR ''-''
         \<and> s ! (yw + 6) = CHR ''T'' \<and> s ! (yw + 9) = CHR '':'' \<and> s ! (yw + 12) = CHR '':''
      then
        (case (Number (take yw s), Number (take 2 (drop (yw + 1) s)),
               Number (take 2 (drop (yw + 4) s)), Number (take 2 (drop (yw + 7) s)),
               Number (take 2 (drop (yw + 10) s)), Number (take 2 (drop (yw + 13) s))) of
           (Some y, Some mo, Some d, Some h, Some mi, Some sec) \<Rightarrow>
             if 1 \<le> mo \<and> mo \<le> 12 \<and> 1 \<le> d \<and> d \<le> 31 \<and> mi \<le> 59 \<and> sec \<le> 59
                \<and> (h \<le> 23 \<or> (h = 24 \<and> mi = 0 \<and> sec = 0))
             then TimeClip (UTC tza (MakeDate (MakeDay (ysign * y) (mo - 1) d) (MakeTime h mi sec 0)))
             else None
         | _ \<Rightarrow> None)
      else None)"

definition Date_parse :: "int \<Rightarrow> string \<Rightarrow> Date" where
  "Date_parse tza s =
     (case s of
        [] \<Rightarrow> None
      | c # cs \<Rightarrow>
          if c = CHR ''+'' then parseFields tza 1 6 cs
          else if c = CHR ''-'' then
            (if take 6 cs = ''000000'' then None else parseFields tza (- 1) 6 cs)
          else parseFields tza 1 4 s)"

section \<open>The component state of App.tsx\<close>

record TaskCreate =
  title :: string
  description :: string
  status :: string
  deadline :: string

record TaskResponse =
  resp_id :: string
  resp_title :: string
  resp_description :: "string option"
  resp_status :: string
  resp_deadline :: string
  created_at :: string

text \<open>One field for each \<open>useState\<close> of the component.\<close>

record AppState =
  form :: TaskCreate
  deadlineDate :: string
  deadlineTime :: string
  showModal :: bool
  createdTask :: "TaskResponse option"
  showCalendar :: bool
  showTimePicker :: bool
  calendarDate :: Date
  selectedHour :: number
  selectedMinute :: number

text \<open>The state of the first render; \<open>now\<close> is the time value of \<open>new Date()\<close>.\<close>

definition initialState :: "int \<Rightarrow> AppState" where
  "initialState now =
     \<lparr> form = \<lparr> title = [], description = [], status = ''pending'', deadline = [] \<rparr>,
       deadlineDate = [], deadlineTime = [],
       showModal = False, createdTask = None,
       showCalendar = False, showTimePicker = False,
       calendarDate = Some now,
       selectedHour = Some 12, selectedMinute = Some 0 \<rparr>"

section \<open>Event handlers\<close>

text \<open>
  A handler takes the state of the render whose closure it is and returns the state after
  its \<open>set...\<close> calls. A JavaScript string is truthy when it is not empty.
\<close>

definition updateDeadline :: "string \<Rightarrow> string \<Rightarrow> AppState \<Rightarrow> AppState" where
  "updateDeadline date time s =
     (if date \<noteq> [] \<and> time \<noteq> [] then
        s\<lparr>form := (form s)\<lparr>deadline := date @ ''T'' @ time @ '':00''\<rparr>\<rparr>
      else if date \<noteq> [] then
        s\<lparr>form := (form s)\<lparr>deadline := date @ ''T00:00:00''\<rparr>\<rparr>
      else
        s\<lparr>form := (form s)\<lparr>deadline := []\<rparr>\<rparr>)"

definition handleDateChange :: "string \<Rightarrow> AppState \<Rightarrow> AppState" where
  "handleDateChange dateValue s =
     updateDeadline dateValue (deadlineTime s) (s\<lparr>deadlineDate := dateValue\<rparr>)"

definition handleTimeChange :: "string \<Rightarrow> AppState \<Rightarrow> AppState" where
  "handleTimeChange timeValue s =
     updateDeadline (deadlineDate s) timeValue (s\<lparr>deadlineTime := timeValue\<rparr>)"

text \<open>
  \<open>handleDateSelect\<close> and \<open>selectToday\<close> call \<open>toISOString\<close>, which throws on an invalid
  date before any state is set.
\<close>

definition handleDateSelect :: "int \<Rightarrow> number \<Rightarrow> number \<Rightarrow> number \<Rightarrow> AppState \<Rightarrow> error + AppState" where
  "handleDateSelect tza day month year s =
     (let selectedDate = Date_ymd tza year month day in
      case toISOString selectedDate of
        Inl e \<Rightarrow> Inl e
      | Inr isoStr \<Rightarrow>
          (let formattedDate = split0 (CHR ''T'') isoStr;
               s1 = s\<lparr>deadlineDate := formattedDate\<rparr>;
               s2 = updateDeadline formattedDate
                      (if deadlineTime s \<noteq> [] then deadlineTime s else ''00:00'') s1
           in Inr (s2\<lparr>showCalendar := False\<rparr>)))"

definition selectToday :: "int \<Rightarrow> int \<Rightarrow> AppState \<Rightarrow> error + AppState" where
  "selectToday tza now s =
     (let today = Some now in
      case toISOString today of
        Inl e \<Rightarrow> Inl e
      | Inr isoStr \<Rightarrow>
          (let formattedDate = split0 (CHR ''T'') isoStr;
               formattedTime = take 5 (toTimeString tza today);
               s1 = s\<lparr>deadlineDate := formattedDate, deadlineTime := formattedTime\<rparr>;
               s2 = updateDeadline formattedDate formattedTime s1
           in Inr (s2\<lparr>calendarDate := today, showCalendar := False\<rparr>)))"

definition handleTimeSelect :: "number \<Rightarrow> number \<Rightarrow> AppState \<Rightarrow> AppState" where
  "handleTimeSelect hour minute s =
     (let formattedTime = padStart 2 (CHR ''0'') (Number_toString hour) @ '':''
                          @ padStart 2 (CHR ''0'') (Number_toString minute);
          s1 = s\<lparr>deadlineTime := formattedTime\<rparr>;
          s2 = updateDeadline (deadlineDate s) formattedTime s1
      in s2\<lparr>showTimePicker := False\<rparr>)"

definition selectCurrentTime :: "int \<Rightarrow> int \<Rightarrow> AppState \<Rightarrow> AppState" where
  "selectCurrentTime tza now s =
     (let hour = getHours tza (Some now);
          minute = getMinutes tza (Some now)
      in handleTimeSelect hour minute s)"

section \<open>Effects\<close>

text \<open>
  An effect runs after a render in which one of its dependencies has changed. It reads
  the state of that render (first state argument) and queues its updates, which are
  applied to the pending state (second state argument).

  \<open>syncDeadline\<close> is the effect on \<open>[form.deadline]\<close>, \<open>syncTimePicker\<close> the effect on
  \<open>[deadlineTime]\<close>.
\<close>

definition syncDeadline :: "int \<Rightarrow> AppState \<Rightarrow> AppState \<Rightarrow> error + AppState" where
  "syncDeadline tza r w =
     (if deadline (form r) \<noteq> [] then
        (let date = Date_parse tza (deadline (form r)) in
         if date \<noteq> None then
           (case toISOString date of
              Inl e \<Rightarrow> Inl e
            | Inr isoStr \<Rightarrow>
                (let dateStr = split0 (CHR ''T'') isoStr;
                     timeStr = take 5 (toTimeString tza date)
                 in Inr (w\<lparr>calendarDate := date,
                            deadlineDate := dateStr,
                            deadlineTime := timeStr,
                            selectedHour := getHours tza date,
                            selectedMinute := getMinutes tza date\<rparr>)))
         else Inr w)
      else Inr w)"

text \<open>
  In \<open>const [hours, minutes] = deadlineTime.split(':').map(Number)\<close> a missing piece is
  \<open>undefined\<close>, and \<open>isNaN(undefined)\<close> is true.
\<close>

definition syncTimePicker :: "AppState \<Rightarrow> AppState \<Rightarrow> AppState" where
  "syncTimePicker r w =
     (if deadlineTime r \<noteq> [] then
        (let parts = map Number (split (CHR '':'') (deadlineTime r)) in
         case (index parts 0, index parts 1) of
           (Some (Some hours), Some (Some minutes)) \<Rightarrow>
             w\<lparr>selectedHour := Some hours, selectedMinute := Some minutes\<rparr>
         | _ \<Rightarrow> w)
      else w)"

text \<open>
  One commit: given the state \<open>before\<close> of the render before and the state \<open>cur\<close> of the
  render just committed, the effects whose dependency differs run in the order of their
  declaration, and the result is the state of the next render.
\<close>

definition runEffects :: "int \<Rightarrow> AppState \<Rightarrow> AppState \<Rightarrow> error + AppState" where
  "runEffects tza before cur =
     (case (if deadline (form before) = deadline (form cur) then Inr cur
            else syncDeadline tza cur cur) of
        Inl e \<Rightarrow> Inl e
      | Inr w \<Rightarrow>
          Inr (if deadlineTime before = deadlineTime cur then w else syncTimePicker cur w))"

definition effectsPending :: "AppState \<Rightarrow> AppState \<Rightarrow> bool" where
  "effectsPending before cur =
     (\<not> (deadline (form before) = deadline (form cur) \<and> deadlineTime before = deadlineTime cur))"

text \<open>
  The renders that follow a state change: while an effect is pending, run the commit and
  render again. \<open>settle\<close> returns the number of commits that ran effects and the last two
  render states, between which no dependency has changed, or the error that an effect
  threw.
\<close>

function settle :: "int \<Rightarrow> AppState \<Rightarrow> AppState \<Rightarrow> error + (nat \<times> AppState \<times> AppState)" where
  "settle tza before cur =
     (if \<not> effectsPending before cur then Inr (0, before, cur)
      else (case runEffects tza before cur of
              Inl e \<Rightarrow> Inl e
            | Inr nxt \<Rightarrow>
                (case settle tza cur nxt of
                   Inl e \<Rightarrow> Inl e
                 | Inr (n, p, s) \<Rightarrow> Inr (Suc n, p, s))))"
  by pat_completeness auto
termination
proof (relation "measure (\<lambda>(tza, before, cur).
         if deadline (form before) \<noteq> deadline (form cur) then 2
         else if deadlineTime before \<noteq> deadlineTime cur then 1 else 0)")
  show "wf (measure (\<lambda>(tza, before, cur).
         if deadline (form before) \<noteq> deadline (form cur) then 2
         else if deadlineTime before \<noteq> deadlineTime cur then (1::nat) else 0))"
    by simp
next
  fix tza before cur nxt
  assume pending: "\<not> \<not> effectsPending before cur"
    and run: "runEffects tza before cur = Inr nxt"
  have keeps: "form (syncTimePicker cur w) = form w"
    "deadlineTime (syncTimePicker cur w) = deadlineTime w" for w
    by (simp_all add: syncTimePicker_def Let_def split: option.splits prod.splits)
  have same_form: "form nxt = form cur"
    using run
    by (auto simp: runEffects_def syncDeadline_def keeps Let_def split: if_splits sum.splits)
  show "((tza, cur, nxt), (tza, before, cur)) \<in> measure (\<lambda>(tza, before, cur).
         if deadline (form before) \<noteq> deadline (form cur) then 2
         else if deadlineTime before \<noteq> deadlineTime cur then 1 else 0)"
  proof (cases "deadline (form before) = deadline (form cur)")
    case True
    then have "deadlineTime nxt = deadlineTime cur"
      using run by (auto simp: runEffects_def keeps split: if_splits)
    then show ?thesis
      using pending True same_form by (simp add: effectsPending_def)
  next
    case False
    then show ?thesis
      using same_form by simp
  qed
qed

section \<open>Calendar\<close>

definition getDaysInMonth :: "int \<Rightarrow> Date \<Rightarrow> number" where
  "getDaysInMonth tza date =
     getDate tza (Date_ymd tza (getFullYear tza date)
                    (map_option (\<lambda>m. m + 1) (getMonth tza date)) (Some 0))"

definition getFirstDayOfMonth :: "int \<Rightarrow> Date \<Rightarrow> number" where
  "getFirstDayOfMonth tza date =
     getDay tza (Date_ymd tza (getFullYear tza date) (getMonth tza date) (Some 1))"

text \<open>The argument of \<open>navigateMonth\<close>: \<open>'prev'\<close> or \<open>'next'\<close>.\<close>

datatype direction = Prev | Next

definition navigateMonth :: "int \<Rightarrow> direction \<Rightarrow> AppState \<Rightarrow> AppState" where
  "navigateMonth tza dir s =
     s\<lparr>calendarDate :=
         (let prv = calendarDate s;
              newDate = prv
          in case dir of
               Prev \<Rightarrow> setMonth tza newDate (map_option (\<lambda>m. m - 1) (getMonth tza prv))
             | Next \<Rightarrow> setMonth tza newDate (map_option (\<lambda>m. m + 1) (getMonth tza prv)))\<rparr>"

text \<open>
  The two loops that fill the grid. A cell is \<open>null\<close> (\<open>None\<close>) or a day number. A
  comparison with NaN is false, so a loop whose bound is NaN does not run.
\<close>

function pushEmpty :: "int \<Rightarrow> int \<Rightarrow> int option list \<Rightarrow> int option list" where
  "pushEmpty i firstDay ds =
     (if i < firstDay then pushEmpty (i + 1) firstDay (ds @ [None]) else ds)"
  by pat_completeness auto
termination
  by (relation "measure (\<lambda>(i, firstDay, ds). nat (firstDay - i))") auto

function pushDays :: "int \<Rightarrow> int \<Rightarrow> int option list \<Rightarrow> int option list" where
  "pushDays day daysInMonth ds =
     (if day \<le> daysInMonth then pushDays (day + 1) daysInMonth (ds @ [Some day]) else ds)"
  by pat_completeness auto
termination
  by (relation "measure (\<lambda>(day, daysInMonth, ds). nat (daysInMonth + 1 - day))") auto

definition days :: "int \<Rightarrow> Date \<Rightarrow> int option list" where
  "days tza calDate =
     (let daysInMonth = getDaysInMonth tza calDate;
          firstDay = getFirstDayOfMonth tza calDate;
          ds0 = [];
          ds1 = (case firstDay of None \<Rightarrow> ds0 | Some k \<Rightarrow> pushEmpty 0 k ds0);
          ds2 = (case daysInMonth of None \<Rightarrow> ds1 | Some n \<Rightarrow> pushDays 1 n ds1)
      in ds2)"

section \<open>Form submission\<close>

text \<open>
  \<open>axios.post('http://localhost:8000/', form)\<close> is the parameter \<open>post\<close>: it maps the
  request body to the response data, or to the error that the awaited call throws, as
  the string that \<open>'Error creating task: ' + err\<close> appends. The result of \<open>submitForm\<close>
  is the next state and the message of \<open>alert\<close>, if it was called.
\<close>

definition submitForm :: "(TaskCreate \<Rightarrow> string + TaskResponse) \<Rightarrow> AppState \<Rightarrow> AppState \<times> string option" where
  "submitForm post s =
     (case post (form s) of
        Inr response_data \<Rightarrow>
          (s\<lparr>createdTask := Some response_data,
             showModal := True,
             form := \<lparr> title = [], description = [], status = ''pending'', deadline = [] \<rparr>,
             deadlineDate := [],
             deadlineTime := []\<rparr>,
           None)
      | Inl err \<Rightarrow> (s, Some (''Error creating task: '' @ err)))"

definition closeModal :: "AppState \<Rightarrow> AppState" where
  "closeModal s = s\<lparr>showModal := False, createdTask := None\<rparr>"

section \<open>Notions of the specification\<close>

text \<open>
  The invariant that ties the two fragments to \<open>form.deadline\<close>: both fragments present,
  only the date present, both absent.
\<close>

definition deadlineInvariant :: "AppState \<Rightarrow> bool" where
  "deadlineInvariant s =
     ((deadlineDate s \<noteq> [] \<and> deadlineTime s \<noteq> [] \<longrightarrow>
         deadline (form s) = deadlineDate s @ ''T'' @ deadlineTime s @ '':00'')
      \<and> (deadlineDate s \<noteq> [] \<and> deadlineTime s = [] \<longrightarrow>
         deadline (form s) = deadlineDate s @ ''T00:00:00'')
      \<and> (deadlineDate s = [] \<and> deadlineTime s = [] \<longrightarrow> deadline (form s) = []))"

text \<open>
  The length of month \<open>m\<close> (0 = January) of year \<open>y\<close> in the Gregorian calendar, as the
  calendar rule gives it.
\<close>

definition isLeapYear :: "int \<Rightarrow> bool" where
  "isLeapYear y = (if y mod 400 = 0 then True else if y mod 100 = 0 then False else y mod 4 = 0)"

definition monthLength :: "int \<Rightarrow> int \<Rightarrow> int" where
  "monthLength y m =
     (if m = 1 then (if isLeapYear y then 29 else 28)
      else if m = 3 \<or> m = 5 \<or> m = 8 \<or> m = 10 then 30
      else 31)"

text \<open>
  The strings \<open>YYYY-MM-DD\<close> and \<open>HH:mm\<close> that name a date (month 1 to 12) and a time
  of day, and the dates and times that exist.
\<close>

definition dateString :: "int \<Rightarrow> int \<Rightarrow> int \<Rightarrow> string" where
  "dateString y mo d = pad 4 y @ ''-'' @ pad 2 mo @ ''-'' @ pad 2 d"

definition timeString :: "int \<Rightarrow> int \<Rightarrow> string" where
  "timeString h mi = pad 2 h @ '':'' @ pad 2 mi"

definition validDate :: "int \<Rightarrow> int \<Rightarrow> int \<Rightarrow> bool" where
  "validDate y mo d =
     (0 \<le> y \<and> y \<le> 9999 \<and> 1 \<le> mo \<and> mo \<le> 12 \<and> 1 \<le> d \<and> d \<le> monthLength y (mo - 1))"

definition validTime :: "int \<Rightarrow> int \<Rightarrow> bool" where
  "validTime h mi = (0 \<le> h \<and> h \<le> 23 \<and> 0 \<le> mi \<and> mi \<le> 59)"

section \<open>Years, months and days of a time value\<close>

text \<open>
  The executable \<open>YearFromDay\<close> is the year of ECMA-262: the day lies in the year it
  returns (\<open>YearFromDay_bounds\<close>), and no other year contains it (\<open>YearFromDay_unique\<close>).
  From there, the fields of the time value that \<open>MakeDay\<close> builds for a date of the
  calendar are that date (\<open>fields_of_MakeDay\<close>).
\<close>

lemma div_succ: 
  assumes "0 < (k::int)"
  shows "(a + 1) div k = a div k + (if (a + 1) mod k = 0 then 1 else 0)"
proof -
  define q where "q = a div k"
  define r where "r = a mod k"
  have a: "a = k * q + r" by (simp add: q_def r_def)
  have r: "0 \<le> r" "r < k" using assms by (simp_all add: r_def)
  show ?thesis
  proof (cases "r + 1 < k")
    case True
    have "a + 1 = k * q + (r + 1)" using a by simp
    then have "(a + 1) div k = q" "(a + 1) mod k = r + 1"
      using True r by (auto intro: int_div_pos_eq int_mod_pos_eq)
    then show ?thesis using r by (simp add: q_def)
  next
    case False
    then have "a + 1 = k * (q + 1) + 0" using a r by (simp add: algebra_simps)
    then have "(a + 1) div k = q + 1" "(a + 1) mod k = 0"
      using assms by (auto intro: int_div_pos_eq int_mod_pos_eq)
    then show ?thesis by (simp add: q_def)
  qed
qed

lemma mod_shift: "((y::int) - k * c) mod k = y mod k"
  by (metis mod_mult_self1 diff_add_cancel add.commute mult.commute)

lemma DayFromYear_succ: "DayFromYear (y + 1) = DayFromYear y + DaysInYear y"
proof -
  have a: "(y + 1 - 1969) div 4 = (y - 1969) div 4 + (if y mod 4 = 0 then 1 else 0)"
    using div_succ[of 4 "y - 1969"] mod_shift[of y 4 492] by (simp add: algebra_simps)
  have b: "(y + 1 - 1901) div 100 = (y - 1901) div 100 + (if y mod 100 = 0 then 1 else 0)"
    using div_succ[of 100 "y - 1901"] mod_shift[of y 100 19] by (simp add: algebra_simps)
  have c: "(y + 1 - 1601) div 400 = (y - 1601) div 400 + (if y mod 400 = 0 then 1 else 0)"
    using div_succ[of 400 "y - 1601"] mod_shift[of y 400 4] by (simp add: algebra_simps)
  have d: "y mod 400 = 0 \<Longrightarrow> y mod 100 = 0" by presburger  
  have e: "y mod 100 = 0 \<Longrightarrow> y mod 4 = 0" by presburger  
  show ?thesis unfolding DayFromYear_def DaysInYear_def a b c using d e by auto
qed

lemma div_bounds:
  assumes "0 < (k::int)"
  shows "k * (a div k) \<le> a" and "a < k * (a div k) + k"
proof -
  have "a = k * (a div k) + a mod k" by simp
  moreover have "0 \<le> a mod k" "a mod k < k" using assms by simp_all
  ultimately show "k * (a div k) \<le> a" and "a < k * (a div k) + k" by linarith+
qed

lemma DayFromYear_lin:
  obtains q4 q100 q400 where
    "DayFromYear y = 365 * y - 719050 + q4 - q100 + q400"
    "4 * q4 \<le> y - 1969" "y - 1969 < 4 * q4 + 4"
    "100 * q100 \<le> y - 1901" "y - 1901 < 100 * q100 + 100"
    "400 * q400 \<le> y - 1601" "y - 1601 < 400 * q400 + 400"
proof -
  show ?thesis
    by (rule that[of "(y - 1969) div 4" "(y - 1901) div 100" "(y - 1601) div 400"])
       (simp_all add: DayFromYear_def div_bounds[of 4, simplified]
          div_bounds[of 100, simplified] div_bounds[of 400, simplified])
qed

lemma DayFromYear_less: 
  assumes "a < b" shows "DayFromYear a < DayFromYear b"
proof -
  obtain p4 p100 p400 where A:
    "DayFromYear a = 365 * a - 719050 + p4 - p100 + p400"
    "4 * p4 \<le> a - 1969" "a - 1969 < 4 * p4 + 4"
    "100 * p100 \<le> a - 1901" "a - 1901 < 100 * p100 + 100"
    "400 * p400 \<le> a - 1601" "a - 1601 < 400 * p400 + 400"
    by (rule DayFromYear_lin)
  obtain q4 q100 q400 where B:
    "DayFromYear b = 365 * b - 719050 + q4 - q100 + q400"
    "4 * q4 \<le> b - 1969" "b - 1969 < 4 * q4 + 4"
    "100 * q100 \<le> b - 1901" "b - 1901 < 100 * q100 + 100"
    "400 * q400 \<le> b - 1601" "b - 1601 < 400 * q400 + 400"
    by (rule DayFromYear_lin)
  show ?thesis using A B assms by linarith
qed

lemma YearFromDay_est:
  fixes d :: int
  defines "y0 \<equiv> 1970 + (400 * d) div 146097"
  shows "DayFromYear (y0 - 1) \<le> d \<and> d < DayFromYear (y0 + 2)"
proof -
  define e where "e = (400 * d) div 146097"
  have E: "146097 * e \<le> 400 * d" "400 * d < 146097 * e + 146097"
    unfolding e_def using div_bounds[of 146097 "400 * d"] by simp_all
  have y0: "y0 = 1970 + e" by (simp add: y0_def e_def)
  obtain p4 p100 p400 where A:
    "DayFromYear (y0 - 1) = 365 * (y0 - 1) - 719050 + p4 - p100 + p400"
    "4 * p4 \<le> y0 - 1 - 1969" "y0 - 1 - 1969 < 4 * p4 + 4"
    "100 * p100 \<le> y0 - 1 - 1901" "y0 - 1 - 1901 < 100 * p100 + 100"
    "400 * p400 \<le> y0 - 1 - 1601" "y0 - 1 - 1601 < 400 * p400 + 400"
    by (rule DayFromYear_lin)
  obtain q4 q100 q400 where B:
    "DayFromYear (y0 + 2) = 365 * (y0 + 2) - 719050 + q4 - q100 + q400"
    "4 * q4 \<le> y0 + 2 - 1969" "y0 + 2 - 1969 < 4 * q4 + 4"
    "100 * q100 \<le> y0 + 2 - 1901" "y0 + 2 - 1901 < 100 * q100 + 100"
    "400 * q400 \<le> y0 + 2 - 1601" "y0 + 2 - 1601 < 400 * q400 + 400"
    by (rule DayFromYear_lin)
  have "DayFromYear (y0 - 1) \<le> d" using A E unfolding y0 by (simp only: algebra_simps; linarith)
  moreover have "d < DayFromYear (y0 + 2)" using B E unfolding y0 by (simp only: algebra_simps; linarith)
  ultimately show ?thesis by simp
qed

lemma YearFromDay_bounds: "DayFromYear (YearFromDay d) \<le> d \<and> d < DayFromYear (YearFromDay d + 1)"
  using YearFromDay_est[of d] by (auto simp: YearFromDay_def Let_def)

lemma YearFromDay_unique:
  assumes "DayFromYear y \<le> d" "d < DayFromYear (y + 1)"
  shows "YearFromDay d = y"
proof (rule ccontr)
  assume n: "YearFromDay d \<noteq> y"
  note b = YearFromDay_bounds[of d]
  show False
  proof (cases "YearFromDay d < y")
    case True
    then have "DayFromYear (YearFromDay d + 1) \<le> DayFromYear y"
      using DayFromYear_less[of "YearFromDay d + 1" y] by (cases "YearFromDay d + 1 = y") auto
    then show False using b assms by linarith
  next
    case False
    then have "y + 1 \<le> YearFromDay d" using n by simp
    then have "DayFromYear (y + 1) \<le> DayFromYear (YearFromDay d)"
      using DayFromYear_less[of "y + 1" "YearFromDay d"] by (cases "y + 1 = YearFromDay d") auto
    then show False using b assms by linarith
  qed
qed

lemma Day_MakeDate:
  assumes "0 \<le> tod" "tod < msPerDay"
  shows "Day (MakeDate d tod) = d"
proof -
  have "d * msPerDay + tod = msPerDay * d + tod" by simp
  then show ?thesis
    unfolding Day_def MakeDate_def using assms by (auto intro: int_div_pos_eq)
qed

lemma DaysInYear_cases: "DaysInYear y = 365 \<or> DaysInYear y = 366"
  by (simp add: DaysInYear_def)

lemma YearFromDay_in_year:
  assumes "0 \<le> k" "k < DaysInYear y"
  shows "YearFromDay (DayFromYear y + k) = y"
  using assms by (intro YearFromDay_unique) (simp_all add: DayFromYear_succ)

lemma month_cases:
  assumes "0 \<le> (mn::int)" "mn \<le> 11"
  obtains "mn = 0" | "mn = 1" | "mn = 2" | "mn = 3" | "mn = 4" | "mn = 5"
    | "mn = 6" | "mn = 7" | "mn = 8" | "mn = 9" | "mn = 10" | "mn = 11"
proof -
  have "mn \<in> {0, 1, 2, 3, 4, 5, 6, 7, 8, 9, 10, 11}"
    using assms by (simp only: insert_iff empty_iff) presburger
  then show thesis using that by blast
qed

lemma MakeDay_in_year:
  assumes "0 \<le> mn" "mn \<le> 11"
  shows "MakeDay y mn dt = DayFromYear y + DayFromMonth mn (if DaysInYear y = 366 then 1 else 0) + dt - 1"
proof -
  have "mn div 12 = 0" "mn mod 12 = mn" using assms by simp_all
  then show ?thesis by (simp add: MakeDay_def)
qed

lemma fields_of_MakeDay:
  assumes mn: "0 \<le> mn" "mn \<le> 11" and dt: "1 \<le> dt" "dt \<le> monthLength y mn"
    and tod: "0 \<le> tod" "tod < msPerDay"
  defines "t \<equiv> MakeDate (MakeDay y mn dt) tod"
  shows "YearFromTime t = y" and "MonthFromTime t = mn" and "DateFromTime t = dt"
proof -
  define l :: int where "l = (if DaysInYear y = 366 then 1 else 0)"
  define k where "k = DayFromMonth mn l + dt - 1"
  have day: "Day t = DayFromYear y + k"
    unfolding t_def k_def l_def using tod mn by (simp add: Day_MakeDate MakeDay_in_year)
  have leap: "isLeapYear y \<longleftrightarrow> DaysInYear y = 366"
    by (auto simp: isLeapYear_def DaysInYear_def)
  have diy: "DaysInYear y = 365 + l"
    using DaysInYear_cases[of y] by (auto simp: l_def)
  have k: "0 \<le> k" "k < DaysInYear y"
    using mn dt unfolding k_def diy
    by (cases rule: month_cases[of mn]; simp add: DayFromMonth_def monthLength_def leap l_def split: if_splits)+
  show y: "YearFromTime t = y"
    unfolding YearFromTime_def day using k by (rule YearFromDay_in_year)
  have dwy: "DayWithinYear t = k"
    unfolding DayWithinYear_def y day by simp
  have ily: "InLeapYear t = l"
    unfolding InLeapYear_def y l_def by simp
  show m: "MonthFromTime t = mn"
    unfolding MonthFromTime_def dwy ily Let_def k_def using mn dt
    by (cases rule: month_cases[of mn]; simp add: DayFromMonth_def monthLength_def leap l_def split: if_splits)
  show "DateFromTime t = dt"
    unfolding DateFromTime_def dwy ily m Let_def k_def using mn
    by (cases rule: month_cases[of mn]; simp add: DayFromMonth_def)
qed

lemma MonthFromTime_range: "0 \<le> MonthFromTime t \<and> MonthFromTime t \<le> 11"
  by (simp add: MonthFromTime_def Let_def)

lemma DayWithinYear_range: "0 \<le> DayWithinYear t \<and> DayWithinYear t < DaysInYear (YearFromTime t)"
  using YearFromDay_bounds[of "Day t"]
  by (simp add: DayWithinYear_def YearFromTime_def DayFromYear_succ)

lemma DateFromTime_range: "1 \<le> DateFromTime t \<and> DateFromTime t \<le> 31"
proof -
  define l where "l = InLeapYear t"
  define k where "k = DayWithinYear t"
  have l: "0 \<le> l" "l \<le> 1" by (simp_all add: l_def InLeapYear_def)
  have "DaysInYear (YearFromTime t) = 365 + l"
    using DaysInYear_cases[of "YearFromTime t"] by (auto simp: l_def InLeapYear_def)
  then have k: "0 \<le> k" "k < 365 + l"
    using DayWithinYear_range[of t] by (simp_all add: k_def)
  have mr: "0 \<le> MonthFromTime t" "MonthFromTime t \<le> 11"
    using MonthFromTime_range[of t] by simp_all
  have m: "MonthFromTime t =
     (if k < 31 then 0 else if k < 59 + l then 1 else if k < 90 + l then 2
      else if k < 120 + l then 3 else if k < 151 + l then 4 else if k < 181 + l then 5
      else if k < 212 + l then 6 else if k < 243 + l then 7 else if k < 273 + l then 8
      else if k < 304 + l then 9 else if k < 334 + l then 10 else 11)"
    by (simp add: MonthFromTime_def Let_def k_def l_def)
  show ?thesis
    using mr k l
    by (cases rule: month_cases[of "MonthFromTime t"];
        simp add: DateFromTime_def Let_def k_def[symmetric] l_def[symmetric];
        simp add: m split: if_splits)
qed

lemma monthLength_range: "28 \<le> monthLength y m \<and> monthLength y m \<le> 31"
  by (simp add: monthLength_def)

lemma validDate_day: "validDate y mo d \<Longrightarrow> d \<le> 31"
  using monthLength_range[of y "mo - 1"] by (simp add: validDate_def)

lemma MakeDay_day0:
  assumes "0 \<le> m" "m \<le> 11"
  shows "MakeDay y (m + 1) 0 = MakeDay y m (monthLength y m)"
proof (cases "m = 11")
  case True
  have "isLeapYear y \<longleftrightarrow> DaysInYear y = 366"
    by (auto simp: isLeapYear_def DaysInYear_def)
  then show ?thesis
    using True DaysInYear_cases[of y]
    by (auto simp: MakeDay_def DayFromYear_succ DayFromMonth_def monthLength_def)
next
  case False
  then have m1: "0 \<le> m + 1" "m + 1 \<le> 11" using assms by simp_all
  have leap: "isLeapYear y \<longleftrightarrow> DaysInYear y = 366"
    by (auto simp: isLeapYear_def DaysInYear_def)
  show ?thesis
    unfolding MakeDay_in_year[OF m1] MakeDay_in_year[OF assms]
    using assms False
    by (cases rule: month_cases[of m]; simp add: DayFromMonth_def monthLength_def leap)
qed

lemma MakeDay_carry: "MakeDay y mo dt = MakeDay (y + mo div 12) (mo mod 12) dt"
  by (simp add: MakeDay_def)

lemma TimeWithinDay_range: "0 \<le> TimeWithinDay t \<and> TimeWithinDay t < msPerDay"
  by (simp add: TimeWithinDay_def msPerDay_def)

lemma MakeDay_bounds:
  assumes y: "- 271820 \<le> y" "y \<le> 275759" and m: "0 \<le> m" "m \<le> 11"
    and dt: "1 \<le> dt" "dt \<le> 31"
  shows "- 99999900 \<le> MakeDay y m dt" "MakeDay y m dt \<le> 99999900"
proof -
  obtain q4 q100 q400 where A:
    "DayFromYear y = 365 * y - 719050 + q4 - q100 + q400"
    "4 * q4 \<le> y - 1969" "y - 1969 < 4 * q4 + 4"
    "100 * q100 \<le> y - 1901" "y - 1901 < 100 * q100 + 100"
    "400 * q400 \<le> y - 1601" "y - 1601 < 400 * q400 + 400"
    by (rule DayFromYear_lin)
  have lo: "- 99999900 \<le> DayFromYear y" and hi: "DayFromYear y \<le> 99999500"
    using A y by linarith+
  define l :: int where "l = (if DaysInYear y = 366 then 1 else 0)"
  have "0 \<le> DayFromMonth m l \<and> DayFromMonth m l \<le> 335"
    by (simp add: DayFromMonth_def l_def)
  then show "- 99999900 \<le> MakeDay y m dt" "MakeDay y m dt \<le> 99999900"
    unfolding MakeDay_in_year[OF m] l_def[symmetric] using lo hi dt by linarith+
qed

lemma TimeClip_in_range:
  assumes y: "- 271820 \<le> y" "y \<le> 275759" and m: "0 \<le> m" "m \<le> 11"
    and dt: "1 \<le> dt" "dt \<le> 31" and tod: "0 \<le> tod" "tod < msPerDay"
    and tza: "\<bar>tza\<bar> \<le> msPerDay"
  shows "TimeClip (UTC tza (MakeDate (MakeDay y m dt) tod)) = Some (MakeDate (MakeDay y m dt) tod - tza)"
proof -
  note b = MakeDay_bounds[OF y m dt]
  have "\<bar>MakeDay y m dt * 86400000 + tod - tza\<bar> \<le> 8640000000000000"
    using b tod tza unfolding msPerDay_def by linarith
  then show ?thesis
    by (simp add: TimeClip_def UTC_def MakeDate_def msPerDay_def)
qed

lemma MakeTime_range:
  assumes "0 \<le> h" "h \<le> 23" "0 \<le> mi" "mi \<le> 59"
  shows "0 \<le> MakeTime h mi 0 0" "MakeTime h mi 0 0 < msPerDay"
  using assms by (simp_all add: MakeTime_def msPerDay_def msPerHour_def msPerMinute_def msPerSecond_def)

lemma time_fields:
  fixes dy :: int
  assumes "0 \<le> h" "h \<le> 23" "0 \<le> mi" "mi \<le> 59"
  defines "t \<equiv> MakeDate dy (MakeTime h mi 0 0)"
  shows "HourFromTime t = h" "MinFromTime t = mi" "SecFromTime t = 0" "msFromTime t = 0"
proof -
  have t: "t = dy * 86400000 + h * 3600000 + mi * 60000"
    by (simp add: t_def MakeDate_def MakeTime_def msPerDay_def msPerHour_def msPerMinute_def msPerSecond_def)
  have "t = 3600000 * (24 * dy + h) + mi * 60000" by (simp add: t)
  then have "t div 3600000 = 24 * dy + h"
    using assms(3,4) by (subst int_div_pos_eq[of t 3600000 "24 * dy + h" "mi * 60000"]) simp_all
  then show "HourFromTime t = h"
    using assms(1,2) by (simp add: HourFromTime_def msPerHour_def)
  have "t = 60000 * (1440 * dy + 60 * h + mi) + 0" by (simp add: t)
  then have "t div 60000 = 60 * (24 * dy + h) + mi"
    by (subst int_div_pos_eq[of t 60000 "1440 * dy + 60 * h + mi" 0]) simp_all
  then have "MinFromTime t = (60 * (24 * dy + h) + mi) mod 60"
    by (simp only: MinFromTime_def msPerMinute_def)
  also have "\<dots> = mi"
    using assms(3,4) by (simp only: mod_mult_self4) simp
  finally show "MinFromTime t = mi" .
  have "t = 1000 * (60 * (1440 * dy + 60 * h + mi)) + 0" by (simp add: t)
  then have "t div 1000 = 60 * (1440 * dy + 60 * h + mi)"
    by (subst int_div_pos_eq[of t 1000 "60 * (1440 * dy + 60 * h + mi)" 0]) simp_all
  then show "SecFromTime t = 0"
    by (simp add: SecFromTime_def msPerSecond_def)
  have "t = 1000 * (86400 * dy + 3600 * h + 60 * mi)" by (simp add: t)
  then show "msFromTime t = 0"
    by (simp add: msFromTime_def msPerSecond_def)
qed

section \<open>Digits and padded numbers\<close>

text \<open>
  Printing a number with \<open>padStart\<close> and reading it back with \<open>Number\<close> gives the
  number, and a printed number holds no separator.
\<close>

lemma digit_cases:
  assumes "(n::nat) < 10"
  obtains "n = 0" | "n = 1" | "n = 2" | "n = 3" | "n = 4" | "n = 5" | "n = 6" | "n = 7" | "n = 8" | "n = 9"
proof -
  have "n \<in> {0, 1, 2, 3, 4, 5, 6, 7, 8, 9}"
    using assms by (simp only: insert_iff empty_iff) presburger
  then show thesis using that by blast
qed

lemma digit_of_digit_char:
  assumes "n < 10"
  shows "digit_of (digit_char n) = Some (int n)"
  using assms
  by (cases rule: digit_cases[of n]; simp add: digit_of_def digit_char_def decimal_digits_def)

lemma digit_char_not_sep:
  "digit_char n \<noteq> CHR ''T''" "digit_char n \<noteq> CHR '':''" "digit_char n \<noteq> CHR ''-''"
  "digit_char n \<noteq> CHR ''+''"
proof -
  have "n mod 10 < 10" by simp
  then show "digit_char n \<noteq> CHR ''T''" "digit_char n \<noteq> CHR '':''" "digit_char n \<noteq> CHR ''-''"
    "digit_char n \<noteq> CHR ''+''"
    unfolding digit_char_def decimal_digits_def
    by (cases rule: digit_cases[of "n mod 10"]; simp)+
qed

lemma show_nat_1: "n < 10 \<Longrightarrow> show_nat n = [digit_char n]"
  by simp

lemma show_nat_2:
  assumes "10 \<le> n" "n < 100"
  shows "show_nat n = [digit_char (n div 10), digit_char (n mod 10)]"
proof -
  have "n div 10 < 10" using assms by simp
  then show ?thesis using assms by (subst show_nat.simps) (simp add: show_nat_1)
qed

lemma show_nat_3:
  assumes "100 \<le> n" "n < 1000"
  shows "show_nat n = [digit_char (n div 10 div 10), digit_char (n div 10 mod 10), digit_char (n mod 10)]"
proof -
  have a: "10 \<le> n div 10" "n div 10 < 100" using assms by simp_all
  have "show_nat n = show_nat (n div 10) @ [digit_char (n mod 10)]"
    using assms by (subst show_nat.simps) simp
  then show ?thesis by (simp only: show_nat_2[OF a] append.simps)
qed

lemma show_nat_4:
  assumes "1000 \<le> n" "n < 10000"
  shows "show_nat n = [digit_char (n div 10 div 10 div 10), digit_char (n div 10 div 10 mod 10),
                      digit_char (n div 10 mod 10), digit_char (n mod 10)]"
proof -
  have a: "100 \<le> n div 10" "n div 10 < 1000" using assms by simp_all
  have "show_nat n = show_nat (n div 10) @ [digit_char (n mod 10)]"
    using assms by (subst show_nat.simps) simp
  then show ?thesis by (simp only: show_nat_3[OF a] append.simps)
qed

lemma digit_char_0: "digit_char 0 = CHR ''0''"
  by (simp add: digit_char_def decimal_digits_def)

lemma replicate_small:
  "replicate 3 c = [c, c, c]" "replicate 2 c = [c, c]" "replicate 1 c = [c]"
  by (simp_all add: numeral_3_eq_3 numeral_2_eq_2)

lemma pad_2:
  assumes "0 \<le> i" "i \<le> 99"
  shows "pad 2 i = [digit_char (nat i div 10), digit_char (nat i mod 10)]"
proof (cases "nat i < 10")
  case True
  then show ?thesis
    using assms by (simp add: pad_def padStart_def toString_def digit_char_0 replicate_small del: show_nat.simps add: show_nat_1)
next
  case False
  then have "10 \<le> nat i" "nat i < 100" using assms by simp_all
  then show ?thesis
    using assms by (simp add: pad_def padStart_def toString_def del: show_nat.simps add: show_nat_2)
qed

lemma pad_4:
  assumes "0 \<le> i" "i \<le> 9999"
  shows "pad 4 i = [digit_char (nat i div 10 div 10 div 10), digit_char (nat i div 10 div 10 mod 10),
                   digit_char (nat i div 10 mod 10), digit_char (nat i mod 10)]"
proof -
  define n where "n = nat i"
  have i: "\<not> i < 0" using assms by simp
  have p: "pad 4 i = replicate (4 - length (show_nat n)) (CHR ''0'') @ show_nat n"
    using i by (simp only: pad_def padStart_def toString_def n_def if_False)
  consider "n < 10" | "10 \<le> n" "n < 100" | "100 \<le> n" "n < 1000"
    | "1000 \<le> n" "n < 10000"
    using assms unfolding n_def by linarith
  then have "replicate (4 - length (show_nat n)) (CHR ''0'') @ show_nat n =
     [digit_char (n div 10 div 10 div 10), digit_char (n div 10 div 10 mod 10),
                   digit_char (n div 10 mod 10), digit_char (n mod 10)]"
  proof cases
    case 1
    then show ?thesis
      by (simp add: digit_char_0 replicate_small del: show_nat.simps add: show_nat_1)
  next
    case 2
    then have "n div 10 < 10" by simp
    then show ?thesis
      using 2 by (simp add: digit_char_0 replicate_small del: show_nat.simps add: show_nat_2)
  next
    case 3
    then have "n div 10 div 10 < 10" by simp
    then show ?thesis
      using 3 by (simp add: digit_char_0 replicate_small del: show_nat.simps add: show_nat_3)
  next
    case 4
    then show ?thesis
      by (simp del: show_nat.simps add: show_nat_4)
  qed
  then show ?thesis unfolding p n_def .
qed

lemma Number_2:
  assumes "a < 10" "b < 10"
  shows "Number [digit_char a, digit_char b] = Some (10 * int a + int b)"
  using assms by (simp add: Number_def digit_of_digit_char)

lemma Number_4:
  assumes "a < 10" "b < 10" "c < 10" "d < 10"
  shows "Number [digit_char a, digit_char b, digit_char c, digit_char d]
         = Some (10 * (10 * (10 * int a + int b) + int c) + int d)"
  using assms by (simp add: Number_def digit_of_digit_char)

lemma Number_pad_2:
  assumes "0 \<le> i" "i \<le> 99"
  shows "Number (pad 2 i) = Some i"
proof -
  have "nat i div 10 < 10" "nat i mod 10 < 10" using assms by simp_all
  then have "Number (pad 2 i) = Some (10 * int (nat i div 10) + int (nat i mod 10))"
    unfolding pad_2[OF assms] by (rule Number_2)
  moreover have "10 * int (nat i div 10) + int (nat i mod 10) = i"
    using assms by (simp add: zdiv_int zmod_int)
  ultimately show ?thesis by simp
qed

lemma Number_pad_4:
  assumes "0 \<le> i" "i \<le> 9999"
  shows "Number (pad 4 i) = Some i"
proof -
  define n where "n = nat i"
  have n: "n < 10000" "int n = i" using assms by (simp_all add: n_def)
  have "n div 10 div 10 div 10 < 10" "n div 10 div 10 mod 10 < 10" "n div 10 mod 10 < 10" "n mod 10 < 10"
    using n by simp_all
  then have "Number (pad 4 i) = Some (10 * (10 * (10 * int (n div 10 div 10 div 10)
                + int (n div 10 div 10 mod 10)) + int (n div 10 mod 10)) + int (n mod 10))"
    unfolding pad_4[OF assms] n_def[symmetric] by (rule Number_4)
  moreover have "10 * (10 * (10 * (n div 10 div 10 div 10) + n div 10 div 10 mod 10) + n div 10 mod 10) + n mod 10 = n"
    by (simp only: mult_div_mod_eq)
  then have "10 * (10 * (10 * int (n div 10 div 10 div 10)
                + int (n div 10 div 10 mod 10)) + int (n div 10 mod 10)) + int (n mod 10) = int n"
    by (metis (no_types, lifting) of_nat_add of_nat_mult of_nat_numeral)
  ultimately show ?thesis using n by simp
qed

lemma length_pad_2: "0 \<le> i \<Longrightarrow> i \<le> 99 \<Longrightarrow> length (pad 2 i) = 2"
  by (simp add: pad_2)

lemma length_pad_4: "0 \<le> i \<Longrightarrow> i \<le> 9999 \<Longrightarrow> length (pad 4 i) = 4"
  by (simp add: pad_4)

lemma no_T_pad_2: "0 \<le> i \<Longrightarrow> i \<le> 99 \<Longrightarrow> CHR ''T'' \<notin> set (pad 2 i)"
  using digit_char_not_sep(1)[THEN not_sym] by (simp add: pad_2)

lemma no_T_pad_4: "0 \<le> i \<Longrightarrow> i \<le> 9999 \<Longrightarrow> CHR ''T'' \<notin> set (pad 4 i)"
  using digit_char_not_sep(1)[THEN not_sym] by (simp add: pad_4)

lemma split_append: "sep \<notin> set a \<Longrightarrow> split sep (a @ sep # b) = a # split sep b"
  by (induction a) (auto split: list.splits)

lemma split0_append: "sep \<notin> set a \<Longrightarrow> split0 sep (a @ sep # b) = a"
  by (simp add: split0_def split_append)

section \<open>The deadline invariant and the handlers\<close>

text \<open>
  The state that each handler returns is in the relation that ties the fragments to the
  deadline: direct date edit, direct time edit, calendar day selection (which throws,
  before it sets any state, only when the selected date is an Invalid Date),
  time-picker confirmation, Today (which never throws), Now, and the reset after a
  successful submission. This is the state of the next render only: a handler that
  writes \<open>form.deadline\<close> triggers the effect on \<open>[form.deadline]\<close>, which writes both
  fragments again (Claim C2 below).
\<close>

lemma handlers_return_invariant:
  "deadlineInvariant (handleDateChange v s)
   \<and> deadlineInvariant (handleTimeChange v s)
   \<and> (case handleDateSelect tza day month year s of
          Inr s' \<Rightarrow> deadlineInvariant s'
        | Inl e \<Rightarrow> Date_ymd tza year month day = None)
   \<and> deadlineInvariant (handleTimeSelect hour minute s)
   \<and> (\<exists>s'. selectToday tza now s = Inr s' \<and> deadlineInvariant s')
   \<and> deadlineInvariant (selectCurrentTime tza now s)
   \<and> (\<forall>r. post (form s) = Inr r \<longrightarrow> deadlineInvariant (fst (submitForm post s)))"
proof -
  have dateChange: "deadlineInvariant (handleDateChange v s)"
    by (simp add: deadlineInvariant_def handleDateChange_def updateDeadline_def)
  have timeChange: "deadlineInvariant (handleTimeChange v s)"
    by (simp add: deadlineInvariant_def handleTimeChange_def updateDeadline_def)
  have dateSelect: "case handleDateSelect tza day month year s of
          Inr s' \<Rightarrow> deadlineInvariant s'
        | Inl e \<Rightarrow> Date_ymd tza year month day = None"
    by (cases "Date_ymd tza year month day")
       (simp_all add: deadlineInvariant_def handleDateSelect_def toISOString_def
          updateDeadline_def Let_def)
  have timeSelect: "deadlineInvariant (handleTimeSelect h m s)" for h m
    by (simp add: deadlineInvariant_def handleTimeSelect_def updateDeadline_def Let_def)
  have today: "\<exists>s'. selectToday tza now s = Inr s' \<and> deadlineInvariant s'"
    by (simp add: deadlineInvariant_def selectToday_def toISOString_def updateDeadline_def Let_def)
  have now: "deadlineInvariant (selectCurrentTime tza now s)"
    unfolding selectCurrentTime_def Let_def by (rule timeSelect)
  have reset: "deadlineInvariant (fst (submitForm post s))" if "post (form s) = Inr r" for r
    using that by (simp add: deadlineInvariant_def submitForm_def)
  show ?thesis
    using dateChange timeChange dateSelect timeSelect today now reset by blast
qed

text \<open>
  Claim C2. The relation does not survive a direct date edit in a zone one hour ahead of
  UTC. From the first render, the date field is set to 2024-06-15: the handler returns
  date fragment 2024-06-15, empty time fragment and deadline \<open>2024-06-15T00:00:00\<close>,
  which is in the relation. The deadline has changed, so the effect on
  \<open>[form.deadline]\<close> runs: it parses the deadline as local midnight, 23:00 of 14 June in
  UTC, and writes the UTC date 2024-06-14 into the date fragment and 00:00 into the time
  fragment. When the effects have come to rest both fragments are non-empty and the
  deadline is still \<open>2024-06-15T00:00:00\<close>, not \<open>2024-06-14T00:00:00\<close>.
\<close>

theorem C2_effect_breaks_invariant:
  "(deadlineDate (handleDateChange ''2024-06-15'' (initialState 0)),
    deadlineTime (handleDateChange ''2024-06-15'' (initialState 0)),
    deadline (form (handleDateChange ''2024-06-15'' (initialState 0))))
     = (''2024-06-15'', [], ''2024-06-15T00:00:00'')
   \<and> map_sum id (\<lambda>(n, p, s'). (deadlineDate s', deadlineTime s', deadline (form s'),
                      deadline (form s') = deadlineDate s' @ ''T'' @ deadlineTime s' @ '':00''))
        (settle 3600000 (initialState 0) (handleDateChange ''2024-06-15'' (initialState 0)))
      = Inr (''2024-06-14'', ''00:00'', ''2024-06-15T00:00:00'', False)"
  by code_simp

text \<open>
  In terms of \<open>deadlineInvariant\<close>: the state that the handler returns satisfies it, the
  state in which the effects come to rest does not.
\<close>

lemma date_edit_settles_outside_invariant:
  "deadlineInvariant (handleDateChange ''2024-06-15'' (initialState 0))
   \<and> map_sum id (\<lambda>(n, p, s'). deadlineInvariant s')
        (settle 3600000 (initialState 0) (handleDateChange ''2024-06-15'' (initialState 0)))
      = Inr False"
  by code_simp

text \<open>
  Claim C10. While the date fragment is empty, a direct edit of the time field, a
  time-picker confirmation and the Now action each leave \<open>form.deadline\<close> empty: a time
  without a date is not encoded into the deadline.
\<close>

theorem C10_time_without_date:
  assumes "deadlineDate s = []"
  shows "deadline (form (handleTimeChange timeValue s)) = []
         \<and> deadline (form (handleTimeSelect hour minute s)) = []
         \<and> deadline (form (selectCurrentTime tza now s)) = []"
  using assms
  by (simp add: handleTimeChange_def handleTimeSelect_def selectCurrentTime_def
        updateDeadline_def Let_def)

theorem C10_time_without_date_witness:
  "deadlineDate (initialState 0) = []
   \<and> deadlineTime (handleTimeChange ''09:05'' (initialState 0)) = ''09:05''
   \<and> deadline (form (handleTimeChange ''09:05'' (initialState 0))) = []
   \<and> deadlineTime (handleTimeSelect (Some 9) (Some 5) (initialState 0)) = ''09:05''
   \<and> deadline (form (handleTimeSelect (Some 9) (Some 5) (initialState 0))) = []
   \<and> deadline (form (selectCurrentTime 0 0 (initialState 0))) = []"
proof -
  have empty: "deadlineDate (initialState 0) = []"
    by (simp add: initialState_def)
  have t1: "deadlineTime (handleTimeChange ''09:05'' (initialState 0)) = ''09:05''"
    by (simp add: handleTimeChange_def updateDeadline_def initialState_def)
  have t2: "deadlineTime (handleTimeSelect (Some 9) (Some 5) (initialState 0)) = ''09:05''"
    by code_simp
  show ?thesis
    using empty t1 t2 C10_time_without_date[OF empty, of "''09:05''" "Some 9" "Some 5" 0 0]
    by simp
qed

section \<open>Submission\<close>

text \<open>
  Claim C6. \<open>submitForm\<close> passes the draft \<open>form\<close> as it is to the endpoint: the outcome
  depends on \<open>post\<close> only through its value at \<open>form s\<close>. When the call returns a response,
  the response is stored as \<open>createdTask\<close>, the modal is opened, title, description and
  deadline are emptied, the status is \<open>pending\<close> again, both fragments are emptied, and
  no alert is shown. When the call fails, the state is unchanged and the alert shows
  \<open>'Error creating task: '\<close> followed by the error; nothing is retried.
\<close>

theorem C6_submitForm:
  "(\<forall>post'. post' (form s) = post (form s) \<longrightarrow> submitForm post' s = submitForm post s)
   \<and> (\<forall>r. post (form s) = Inr r \<longrightarrow>
          createdTask (fst (submitForm post s)) = Some r
          \<and> showModal (fst (submitForm post s))
          \<and> form (fst (submitForm post s))
              = \<lparr> title = [], description = [], status = ''pending'', deadline = [] \<rparr>
          \<and> deadlineDate (fst (submitForm post s)) = []
          \<and> deadlineTime (fst (submitForm post s)) = []
          \<and> snd (submitForm post s) = None)
   \<and> (\<forall>err. post (form s) = Inl err \<longrightarrow>
          submitForm post s = (s, Some (''Error creating task: '' @ err)))"
proof (intro conjI allI impI)
  fix post'
  assume "post' (form s) = post (form s)"
  then show "submitForm post' s = submitForm post s"
    by (simp only: submitForm_def)
next
  fix r
  assume r: "post (form s) = Inr r"
  show "createdTask (fst (submitForm post s)) = Some r"
    and "showModal (fst (submitForm post s))"
    and "form (fst (submitForm post s))
           = \<lparr> title = [], description = [], status = ''pending'', deadline = [] \<rparr>"
    and "deadlineDate (fst (submitForm post s)) = []"
    and "deadlineTime (fst (submitForm post s)) = []"
    and "snd (submitForm post s) = None"
    using r by (simp_all add: submitForm_def)
next
  fix err
  assume "post (form s) = Inl err"
  then show "submitForm post s = (s, Some (''Error creating task: '' @ err))"
    by (simp add: submitForm_def)
qed

theorem C6_submitForm_witness:
  "deadline (form (handleDateChange ''2024-12-31'' (initialState 0))) = ''2024-12-31T00:00:00''
   \<and> deadline (form (fst (submitForm (\<lambda>body. Inr \<lparr> resp_id = ''1'', resp_title = title body,
            resp_description = None, resp_status = status body, resp_deadline = deadline body,
            created_at = ''2024-06-15T12:00:00'' \<rparr>)
          (handleDateChange ''2024-12-31'' (initialState 0))))) = []
   \<and> map_option resp_deadline (createdTask (fst (submitForm (\<lambda>body. Inr \<lparr> resp_id = ''1'',
            resp_title = title body, resp_description = None, resp_status = status body,
            resp_deadline = deadline body, created_at = ''2024-06-15T12:00:00'' \<rparr>)
          (handleDateChange ''2024-12-31'' (initialState 0))))) = Some ''2024-12-31T00:00:00''
   \<and> submitForm (\<lambda>body. Inl ''AxiosError: Network Error'')
          (handleDateChange ''2024-12-31'' (initialState 0))
       = (handleDateChange ''2024-12-31'' (initialState 0),
          Some ''Error creating task: AxiosError: Network Error'')"
proof -
  let ?s = "handleDateChange ''2024-12-31'' (initialState 0)"
  let ?ok = "\<lambda>body. Inr \<lparr> resp_id = ''1'', resp_title = title body,
            resp_description = None, resp_status = status body, resp_deadline = deadline body,
            created_at = ''2024-06-15T12:00:00'' \<rparr> :: string + TaskResponse"
  let ?fail = "\<lambda>body :: TaskCreate. Inl ''AxiosError: Network Error'' :: string + TaskResponse"
  have d: "deadline (form ?s) = ''2024-12-31T00:00:00''"
    by (simp add: handleDateChange_def updateDeadline_def initialState_def)
  note ok = C6_submitForm[of ?s ?ok, THEN conjunct2, THEN conjunct1, rule_format, OF refl]
  note fail = C6_submitForm[of ?s ?fail, THEN conjunct2, THEN conjunct2, rule_format, OF refl]
  have "deadline (form (fst (submitForm ?ok ?s))) = []"
    using ok by simp
  moreover have "map_option resp_deadline (createdTask (fst (submitForm ?ok ?s))) = Some ''2024-12-31T00:00:00''"
    using ok d by simp
  moreover have "submitForm ?fail ?s = (?s, Some ''Error creating task: AxiosError: Network Error'')"
    using fail by simp
  ultimately show ?thesis
    using d by blast
qed

section \<open>The synchronisation effects\<close>

lemma split_not_Nil: "split sep s \<noteq> []"
  by (induction s) (auto split: list.splits)

lemma syncTimePicker_keeps:
  "form (syncTimePicker r w) = form w"
  "deadlineDate (syncTimePicker r w) = deadlineDate w"
  "deadlineTime (syncTimePicker r w) = deadlineTime w"
  "calendarDate (syncTimePicker r w) = calendarDate w"
  by (simp_all add: syncTimePicker_def Let_def split: option.splits prod.splits)

lemma syncDeadline_form: "syncDeadline tza r w = Inr w' \<Longrightarrow> form w' = form w"
  by (auto simp: syncDeadline_def Let_def split: if_splits sum.splits)

lemma syncDeadline_no_error: "\<exists>w'. syncDeadline tza r w = Inr w'"
  by (auto simp: syncDeadline_def Let_def toISOString_def split: option.splits)

lemma runEffects_form: "runEffects tza before cur = Inr nxt \<Longrightarrow> form nxt = form cur"
  by (auto simp: runEffects_def syncTimePicker_keeps dest: syncDeadline_form
        split: if_splits sum.splits)

lemma runEffects_time:
  "runEffects tza before cur = Inr nxt \<Longrightarrow> deadline (form before) = deadline (form cur)
   \<Longrightarrow> deadlineTime nxt = deadlineTime cur"
  by (auto simp: runEffects_def syncTimePicker_keeps split: if_splits sum.splits)

lemma runEffects_no_error: "\<exists>nxt. runEffects tza before cur = Inr nxt"
  using syncDeadline_no_error[of tza cur cur] by (auto simp: runEffects_def)

text \<open>
  Claim C5. From any committed state \<open>cur\<close>, whatever the render before it was, the chain
  of effects comes to rest: \<open>settle\<close> returns (no effect throws) after at most two
  commits that ran an effect, no effect is pending between the last two renders, and the
  form, hence \<open>form.deadline\<close>, is the one of \<open>cur\<close>: the effects never write the
  deadline back.
\<close>

theorem C5_effects_settle:
  "\<exists>n p s'. settle tza before cur = Inr (n, p, s') \<and> n \<le> 2
      \<and> \<not> effectsPending p s' \<and> form s' = form cur"
proof (cases "effectsPending before cur")
  case False
  then show ?thesis by simp
next
  case True
  obtain s1 where r1: "runEffects tza before cur = Inr s1"
    using runEffects_no_error by blast
  have f1: "form s1 = form cur"
    using r1 by (rule runEffects_form)
  show ?thesis
  proof (cases "effectsPending cur s1")
    case False
    then show ?thesis
      using True r1 f1 by simp
  next
    case pending2: True
    obtain s2 where r2: "runEffects tza cur s1 = Inr s2"
      using runEffects_no_error by blast
    have f2: "form s2 = form s1"
      using r2 by (rule runEffects_form)
    have "deadlineTime s2 = deadlineTime s1"
      using r2 f1 by (intro runEffects_time) simp_all
    then have rest: "\<not> effectsPending s1 s2"
      using f2 by (simp add: effectsPending_def)
    have "settle tza before cur = Inr (2, s1, s2)"
      using True pending2 rest r1 r2 by simp
    then show ?thesis
      using rest f1 f2 by simp
  qed
qed

theorem C5_effects_settle_witness:
  "effectsPending (initialState 0) (handleDateChange ''2024-06-15'' (initialState 0))
   \<and> (\<exists>n p s'. settle 3600000 (initialState 0) (handleDateChange ''2024-06-15'' (initialState 0))
                = Inr (n, p, s')
        \<and> n \<le> 2 \<and> \<not> effectsPending p s' \<and> deadline (form s') = ''2024-06-15T00:00:00'')"
proof -
  have d: "deadline (form (handleDateChange ''2024-06-15'' (initialState 0))) = ''2024-06-15T00:00:00''"
    by (simp add: handleDateChange_def updateDeadline_def initialState_def)
  then have "effectsPending (initialState 0) (handleDateChange ''2024-06-15'' (initialState 0))"
    by (simp add: effectsPending_def initialState_def)
  then show ?thesis
    using d C5_effects_settle[of 3600000 "initialState 0"
              "handleDateChange ''2024-06-15'' (initialState 0)"]
    by auto
qed

text \<open>
  Claim C9. When \<open>form.deadline\<close> is a non-empty string that does not parse to a valid
  date, the effect on \<open>[form.deadline]\<close> queues no update and throws nothing: the pending
  state, with its date fragment, time fragment, calendar cursor and staged hour and
  minute, is returned as it is.
\<close>

theorem C9_unparseable_deadline:
  assumes "deadline (form s) \<noteq> []" and "Date_parse tza (deadline (form s)) = None"
  shows "syncDeadline tza s w = Inr w"
  using assms by (simp add: syncDeadline_def)

theorem C9_unparseable_deadline_witness:
  "deadline (form (handleTimeChange ''99:99'' (handleDateChange ''2024-13-45'' (initialState 0))))
     = ''2024-13-45T99:99:00''
   \<and> Date_parse 0 ''2024-13-45T99:99:00'' = None
   \<and> syncDeadline 0 (handleTimeChange ''99:99'' (handleDateChange ''2024-13-45'' (initialState 0)))
        (handleTimeChange ''99:99'' (handleDateChange ''2024-13-45'' (initialState 0)))
      = Inr (handleTimeChange ''99:99'' (handleDateChange ''2024-13-45'' (initialState 0)))"
proof -
  let ?s = "handleTimeChange ''99:99'' (handleDateChange ''2024-13-45'' (initialState 0))"
  have d: "deadline (form ?s) = ''2024-13-45T99:99:00''"
    by (simp add: handleTimeChange_def handleDateChange_def updateDeadline_def initialState_def)
  have p: "Date_parse 0 ''2024-13-45T99:99:00'' = None"
    by code_simp
  have "syncDeadline 0 ?s ?s = Inr ?s"
    using d p by (intro C9_unparseable_deadline) simp_all
  then show ?thesis
    using d p by blast
qed

section \<open>Dates read back in UTC\<close>

text \<open>
  What the effect on \<open>[form.deadline]\<close> reads back from a deadline that
  \<open>updateDeadline\<close> built from a date and a time that exist: the time fragment and the
  staged hour and minute are those of the deadline in every zone, and the date fragment
  is the date of the same instant in UTC. It is the date of the deadline when that
  instant falls on the same day in UTC, in particular when local time is UTC.
\<close>

lemma Date_parse_deadline:
  assumes y: "0 \<le> y" "y \<le> 9999" and mo: "1 \<le> mo" "mo \<le> 12" and d: "1 \<le> d" "d \<le> 31"
    and h: "0 \<le> h" "h \<le> 23" and mi: "0 \<le> mi" "mi \<le> 59"
  shows "Date_parse tza (dateString y mo d @ ''T'' @ timeString h mi @ '':00'')
         = TimeClip (UTC tza (MakeDate (MakeDay y (mo - 1) d) (MakeTime h mi 0 0)))"
proof -
  define Y where "Y = pad 4 y"
  define M where "M = pad 2 mo"
  define D where "D = pad 2 d"
  define H where "H = pad 2 h"
  define N where "N = pad 2 mi"
  define s where "s = dateString y mo d @ ''T'' @ timeString h mi @ '':00''"
  have len: "length Y = 4" "length M = 2" "length D = 2" "length H = 2" "length N = 2"
    using assms by (simp_all add: Y_def M_def D_def H_def N_def length_pad_2 length_pad_4)
  have num: "Number Y = Some y" "Number M = Some mo" "Number D = Some d" "Number H = Some h"
    "Number N = Some mi"
    using assms by (simp_all add: Y_def M_def D_def H_def N_def Number_pad_2 Number_pad_4)
  have s: "s = Y @ CHR ''-'' # M @ CHR ''-'' # D @ CHR ''T'' # H @ CHR '':'' # N @ '':00''"
    by (simp add: s_def dateString_def timeString_def Y_def M_def D_def H_def N_def)
  have l: "length s = 19" by (simp add: s len)
  have seps: "s ! 4 = CHR ''-''" "s ! 7 = CHR ''-''" "s ! 10 = CHR ''T''" "s ! 13 = CHR '':''"
    "s ! 16 = CHR '':''"
    by (simp_all add: s len nth_append)
  have parts: "take 4 s = Y" "take 2 (drop 5 s) = M" "take 2 (drop 8 s) = D"
    "take 2 (drop 11 s) = H" "take 2 (drop 14 s) = N" "take 2 (drop 17 s) = ''00''"
    by (simp_all add: s len)
  have zero: "Number ''00'' = Some 0"
    by (simp add: Number_def digit_of_def decimal_digits_def)
  have fields: "parseFields tza 1 4 s
                  = TimeClip (UTC tza (MakeDate (MakeDay y (mo - 1) d) (MakeTime h mi 0 0)))"
    unfolding parseFields_def
    using assms by (simp add: l seps parts num zero)
  obtain c cs where c: "s = c # cs" "c \<noteq> CHR ''+''" "c \<noteq> CHR ''-''"
    using digit_char_not_sep(3,4) by (simp add: s Y_def pad_4[OF y])
  show ?thesis
    unfolding s_def[symmetric] Date_parse_def
    using c fields by simp
qed

lemma isoString_date:
  assumes date: "validDate y mo d" and tod: "0 \<le> tod" "tod < msPerDay"
  shows "split0 (CHR ''T'') (isoString (MakeDate (MakeDay y (mo - 1) d) tod)) = dateString y mo d"
proof -
  have y: "0 \<le> y" "y \<le> 9999" and mo: "1 \<le> mo" "mo \<le> 12" and d: "1 \<le> d" "d \<le> 31"
    and dl: "d \<le> monthLength y (mo - 1)"
    using date validDate_day[OF date] by (simp_all add: validDate_def)
  have m0: "0 \<le> mo - 1" "mo - 1 \<le> 11" using mo by simp_all
  note f = fields_of_MakeDay[OF m0 d(1) dl tod]
  have mo99: "0 \<le> mo" "mo \<le> 99" and d99: "0 \<le> d" "d \<le> 99" using mo d by simp_all
  have noT: "CHR ''T'' \<notin> set (dateString y mo d)"
    using no_T_pad_4[OF y] no_T_pad_2[OF mo99] no_T_pad_2[OF d99] by (simp add: dateString_def)
  have "isoString (MakeDate (MakeDay y (mo - 1) d) tod)
          = dateString y mo d @ CHR ''T'' # (pad 2 (HourFromTime (MakeDate (MakeDay y (mo - 1) d) tod))
              @ '':'' @ pad 2 (MinFromTime (MakeDate (MakeDay y (mo - 1) d) tod))
              @ '':'' @ pad 2 (SecFromTime (MakeDate (MakeDay y (mo - 1) d) tod))
              @ ''.'' @ pad 3 (msFromTime (MakeDate (MakeDay y (mo - 1) d) tod)) @ ''Z'')"
    using y by (simp add: isoString_def f isoYear_def dateString_def)
  then show ?thesis
    by (simp only: split0_append[OF noT])
qed

lemma deadline_reads_back:
  assumes date: "validDate y mo d" and time: "validTime h mi" and tza: "\<bar>tza\<bar> \<le> msPerDay"
    and dl: "deadline (form r) = dateString y mo d @ ''T'' @ timeString h mi @ '':00''"
  defines "t \<equiv> MakeDate (MakeDay y (mo - 1) d) (MakeTime h mi 0 0) - tza"
  shows "syncDeadline tza r w =
           Inr (w\<lparr>calendarDate := Some t,
                  deadlineDate := split0 (CHR ''T'') (isoString t),
                  deadlineTime := timeString h mi,
                  selectedHour := Some h,
                  selectedMinute := Some mi\<rparr>)"
proof -
  have y: "0 \<le> y" "y \<le> 9999" and mo: "1 \<le> mo" "mo \<le> 12" and d: "1 \<le> d" "d \<le> 31"
    using date validDate_day[OF date] by (simp_all add: validDate_def)
  have h: "0 \<le> h" "h \<le> 23" and mi: "0 \<le> mi" "mi \<le> 59"
    using time by (simp_all add: validTime_def)
  have m0: "0 \<le> mo - 1" "mo - 1 \<le> 11" using mo by simp_all
  have yr: "- 271820 \<le> y" "y \<le> 275759" using y by simp_all
  have parse: "Date_parse tza (deadline (form r)) = Some t"
    unfolding dl Date_parse_deadline[OF y mo d h mi] t_def
    by (rule TimeClip_in_range[OF yr m0 d MakeTime_range[OF h mi] tza])
  have local: "LocalTime tza t = MakeDate (MakeDay y (mo - 1) d) (MakeTime h mi 0 0)"
    by (simp add: LocalTime_def t_def)
  note tf = time_fields[OF h mi, of "MakeDay y (mo - 1) d"]
  have len: "length (pad 2 h) = 2" "length (pad 2 mi) = 2"
    using h mi by (simp_all add: length_pad_2)
  have ts: "take 5 (toTimeString tza (Some t)) = timeString h mi"
    by (simp add: toTimeString_def local tf Let_def timeString_def len)
  have hm: "getHours tza (Some t) = Some h" "getMinutes tza (Some t) = Some mi"
    by (simp_all add: getHours_def getMinutes_def local tf)
  have ne: "deadline (form r) \<noteq> []"
    by (simp add: dl)
  show ?thesis
    by (simp add: syncDeadline_def ne parse toISOString_def ts hm Let_def)
qed

lemma roundtrip_same_UTC_day:
  fixes s0 :: AppState
  assumes date: "validDate y mo d" and time: "validTime h mi"
    and same: "0 \<le> MakeTime h mi 0 0 - tza" "MakeTime h mi 0 0 - tza < msPerDay"
  defines "s \<equiv> updateDeadline (dateString y mo d) (timeString h mi) s0"
  shows "\<exists>s'. syncDeadline tza s s = Inr s'
            \<and> deadlineDate s' = dateString y mo d \<and> deadlineTime s' = timeString h mi"
proof -
  have h: "0 \<le> h" "h \<le> 23" and mi: "0 \<le> mi" "mi \<le> 59"
    using time by (simp_all add: validTime_def)
  have "dateString y mo d \<noteq> []" "timeString h mi \<noteq> []"
    by (simp_all add: dateString_def timeString_def)
  then have dl: "deadline (form s) = dateString y mo d @ ''T'' @ timeString h mi @ '':00''"
    by (simp add: s_def updateDeadline_def)
  have z: "\<bar>tza\<bar> \<le> msPerDay"
    using same MakeTime_range[OF h mi] by linarith
  have t: "MakeDate (MakeDay y (mo - 1) d) (MakeTime h mi 0 0) - tza
             = MakeDate (MakeDay y (mo - 1) d) (MakeTime h mi 0 0 - tza)"
    by (simp add: MakeDate_def)
  show ?thesis
    unfolding deadline_reads_back[OF date time z dl] t
    using isoString_date[OF date same] by simp
qed

lemma roundtrip_at_UTC:
  fixes s0 :: AppState
  assumes date: "validDate y mo d" and time: "validTime h mi"
  defines "s \<equiv> updateDeadline (dateString y mo d) (timeString h mi) s0"
  shows "\<exists>s'. syncDeadline 0 s s = Inr s'
            \<and> deadlineDate s' = dateString y mo d \<and> deadlineTime s' = timeString h mi"
proof -
  have h: "0 \<le> h" "h \<le> 23" and mi: "0 \<le> mi" "mi \<le> 59"
    using time by (simp_all add: validTime_def)
  have "dateString y mo d \<noteq> []" "timeString h mi \<noteq> []"
    by (simp_all add: dateString_def timeString_def)
  then have dl: "deadline (form s) = dateString y mo d @ ''T'' @ timeString h mi @ '':00''"
    by (simp add: s_def updateDeadline_def)
  have z: "\<bar>0::int\<bar> \<le> msPerDay" by (simp add: msPerDay_def)
  show ?thesis
    unfolding deadline_reads_back[OF date time z dl]
    using isoString_date[OF date MakeTime_range[OF h mi]] by simp
qed

text \<open>
  Claim C1. The round trip fails east of Greenwich. In a zone one hour ahead of UTC (British
  Summer Time), the fragments 2024-06-15 and 00:30 give the deadline
  \<open>2024-06-15T00:30:00\<close>; the effect on \<open>[form.deadline]\<close> parses it as local time, which
  is 23:30 of 14 June in UTC, and writes the date part of \<open>toISOString\<close>, which is the UTC
  date, into the date fragment: 2024-06-14, not 2024-06-15. The time fragment, taken from
  the local \<open>toTimeString\<close>, comes back as 00:30.
\<close>

theorem C1_roundtrip_loses_day:
  "deadline (form (updateDeadline ''2024-06-15'' ''00:30'' (initialState 0)))
     = ''2024-06-15T00:30:00''
   \<and> map_sum id (\<lambda>s'. (deadlineDate s', deadlineTime s'))
        (syncDeadline 3600000
           (updateDeadline ''2024-06-15'' ''00:30'' (initialState 0))
           (updateDeadline ''2024-06-15'' ''00:30'' (initialState 0)))
      = Inr (''2024-06-14'', ''00:30'')"
  by code_simp

text \<open>
  In a zone at or behind UTC, local midnight falls on the same day in UTC, and the date
  fragment is the selected day.
\<close>

lemma handleDateSelect_west_of_UTC:
  assumes date: "validDate y (m + 1) d" and y100: "100 \<le> y"
    and tza: "- msPerDay < tza" "tza \<le> 0"
  shows "\<exists>s'. handleDateSelect tza (Some d) (Some m) (Some y) s = Inr s'
            \<and> deadlineDate s' = dateString y (m + 1) d \<and> \<not> showCalendar s'"
proof -
  have y: "0 \<le> y" "y \<le> 9999" and m: "0 \<le> m" "m \<le> 11" and d: "1 \<le> d" "d \<le> 31"
    using date validDate_day[OF date] by (simp_all add: validDate_def)
  have yr: "- 271820 \<le> y" "y \<le> 275759" using y by simp_all
  have full: "MakeFullYear y = y" using y100 by (simp add: MakeFullYear_def)
  have z: "(0::int) \<le> 0" "(0::int) < msPerDay" "\<bar>tza\<bar> \<le> msPerDay"
    using tza by (simp_all add: msPerDay_def)
  have tod: "0 \<le> - tza" "- tza < msPerDay" using tza by simp_all
  have "Date_ymd tza (Some y) (Some m) (Some d) = Some (MakeDate (MakeDay y m d) 0 - tza)"
    using TimeClip_in_range[OF yr m d z] by (simp add: Date_ymd_def full MakeTime_def)
  also have "MakeDate (MakeDay y m d) 0 - tza = MakeDate (MakeDay y m d) (- tza)"
    by (simp add: MakeDate_def)
  finally have sel: "Date_ymd tza (Some y) (Some m) (Some d)
                       = Some (MakeDate (MakeDay y m d) (- tza))" .
  have iso: "split0 (CHR ''T'') (isoString (MakeDate (MakeDay y m d) (- tza))) = dateString y (m + 1) d"
    using isoString_date[OF date tod] by simp
  show ?thesis
    unfolding handleDateSelect_def sel
    by (simp add: toISOString_def iso Let_def updateDeadline_def)
qed

text \<open>
  Claim C4. With the calendar showing June 2024 in a zone one hour ahead of UTC, selecting
  day 15 builds local midnight of 15 June, which is 23:00 of 14 June in UTC, and
  \<open>toISOString\<close> prints the UTC date: the date fragment becomes 2024-06-14 and the
  deadline \<open>2024-06-14T00:00:00\<close>. The calendar is closed.
\<close>

theorem C4_select_day_east_of_UTC:
  "getMonth 3600000 (calendarDate (initialState 1718452800000)) = Some 5
   \<and> getFullYear 3600000 (calendarDate (initialState 1718452800000)) = Some 2024
   \<and> map_sum id (\<lambda>s'. (deadlineDate s', deadline (form s'), showCalendar s'))
        (handleDateSelect 3600000 (Some 15)
           (getMonth 3600000 (calendarDate (initialState 1718452800000)))
           (getFullYear 3600000 (calendarDate (initialState 1718452800000)))
           (initialState 1718452800000))
      = Inr (''2024-06-14'', ''2024-06-14T00:00:00'', False)"
  by code_simp

text \<open>
  Today, pressed at a time whose UTC day is the local day, sets the fragments to the
  local date and the local time.
\<close>

lemma fields_same_day:
  assumes "Day a = Day b"
  shows "YearFromTime a = YearFromTime b" "MonthFromTime a = MonthFromTime b"
    "DateFromTime a = DateFromTime b"
proof -
  show y: "YearFromTime a = YearFromTime b"
    using assms by (simp add: YearFromTime_def)
  have w: "DayWithinYear a = DayWithinYear b" "InLeapYear a = InLeapYear b"
    using assms y by (simp_all add: DayWithinYear_def InLeapYear_def)
  show m: "MonthFromTime a = MonthFromTime b"
    by (simp add: MonthFromTime_def w)
  show "DateFromTime a = DateFromTime b"
    by (simp add: DateFromTime_def w m)
qed

lemma time_field_ranges:
  "0 \<le> HourFromTime t \<and> HourFromTime t \<le> 23" "0 \<le> MinFromTime t \<and> MinFromTime t \<le> 59"
  by (simp_all add: HourFromTime_def MinFromTime_def)

lemma selectToday_same_UTC_day:
  assumes same: "Day now = Day (LocalTime tza now)"
    and year: "0 \<le> YearFromTime now" "YearFromTime now \<le> 9999"
  shows "\<exists>s'. selectToday tza now s = Inr s'
           \<and> deadlineDate s' = dateString (YearFromTime (LocalTime tza now))
                                  (MonthFromTime (LocalTime tza now) + 1)
                                  (DateFromTime (LocalTime tza now))
           \<and> deadlineTime s' = timeString (HourFromTime (LocalTime tza now))
                                  (MinFromTime (LocalTime tza now))"
proof -
  define y where "y = YearFromTime now"
  define mo where "mo = MonthFromTime now + 1"
  define d where "d = DateFromTime now"
  define t where "t = LocalTime tza now"
  have mo: "0 \<le> mo" "mo \<le> 99" and d: "0 \<le> d" "d \<le> 99"
    using MonthFromTime_range[of now] DateFromTime_range[of now] by (simp_all add: mo_def d_def)
  have y: "0 \<le> y" "y \<le> 9999" using year by (simp_all add: y_def)
  have noT: "CHR ''T'' \<notin> set (dateString y mo d)"
    using no_T_pad_4[OF y] no_T_pad_2[OF mo] no_T_pad_2[OF d] by (simp add: dateString_def)
  have "isoString now = dateString y mo d @ CHR ''T'' # (pad 2 (HourFromTime now)
              @ '':'' @ pad 2 (MinFromTime now) @ '':'' @ pad 2 (SecFromTime now)
              @ ''.'' @ pad 3 (msFromTime now) @ ''Z'')"
    using y by (simp add: isoString_def isoYear_def dateString_def y_def mo_def d_def)
  then have date: "split0 (CHR ''T'') (isoString now) = dateString y mo d"
    by (simp only: split0_append[OF noT])
  have h: "0 \<le> HourFromTime t" "HourFromTime t \<le> 99" and mi: "0 \<le> MinFromTime t" "MinFromTime t \<le> 99"
    using time_field_ranges[of t] by simp_all
  have time: "take 5 (toTimeString tza (Some now)) = timeString (HourFromTime t) (MinFromTime t)"
    by (simp add: toTimeString_def Let_def t_def[symmetric] timeString_def length_pad_2[OF h]
          length_pad_2[OF mi])
  have ne: "dateString y mo d \<noteq> []" "timeString (HourFromTime t) (MinFromTime t) \<noteq> []"
    by (simp_all add: dateString_def timeString_def)
  have "y = YearFromTime t" "mo = MonthFromTime t + 1" "d = DateFromTime t"
    using fields_same_day[OF same] by (simp_all add: y_def mo_def d_def t_def)
  then show ?thesis
    unfolding t_def[symmetric]
    by (simp add: selectToday_def toISOString_def Let_def date time updateDeadline_def ne)
qed

text \<open>
  Claim C7. At 00:30 local time on 15 June 2024 in a zone one hour ahead of UTC (time value
  1718407800000, which is 2024-06-14T23:30:00Z), Today sets the time fragment to the local
  time 00:30 but the date fragment to the UTC date 2024-06-14, so the deadline
  \<open>2024-06-14T00:30:00\<close> names yesterday's date. The calendar cursor is set to the
  current time and the calendar is closed.
\<close>

theorem C7_today_east_of_UTC:
  "getDate 3600000 (Some 1718407800000) = Some 15
   \<and> getMonth 3600000 (Some 1718407800000) = Some 5
   \<and> map_sum id (\<lambda>s'. (deadlineDate s', deadlineTime s', deadline (form s'),
                         calendarDate s', showCalendar s'))
        (selectToday 3600000 1718407800000 (initialState 1718407800000))
      = Inr (''2024-06-14'', ''00:30'', ''2024-06-14T00:30:00'', Some 1718407800000, False)"
  by code_simp

section \<open>The calendar\<close>

subsection \<open>The grid of a month\<close>

text \<open>
  For a cursor whose year is outside 0..99 (and whose month lies wholly inside the range
  of time values), the grid is what the calendar asks for: as many empty cells as the
  weekday index of the first of the month, then the days 1 to the length of the month.
  In the years 0 to 99 \<open>new Date(year, month, day)\<close> builds a date of 1900 + year instead
  (see Claim C3 below).
\<close>

lemma pushEmpty_eq: "pushEmpty i k ds = ds @ replicate (nat (k - i)) None"
proof (induction i k ds rule: pushEmpty.induct)
  case (1 i firstDay ds)
  show ?case
  proof (cases "i < firstDay")
    case True
    then have "nat (firstDay - i) = Suc (nat (firstDay - (i + 1)))" by simp
    then show ?thesis
      using True "1.IH" by (simp add: replicate_append_same del: pushEmpty.simps add: pushEmpty.simps[of i])
  next
    case False
    then show ?thesis by simp
  qed
qed

lemma pushDays_eq: "pushDays d n ds = ds @ map Some [d..n]"
proof (induction d n ds rule: pushDays.induct)
  case (1 day daysInMonth ds)
  show ?case
  proof (cases "day \<le> daysInMonth")
    case True
    then show ?thesis
      using "1.IH" by (simp add: upto_rec1[of day daysInMonth] del: pushDays.simps add: pushDays.simps[of day])
  next
    case False
    then show ?thesis by simp
  qed
qed

lemma calendar_grid:
  assumes y: "getFullYear tza (Some tv) = Some y" and m: "getMonth tza (Some tv) = Some m"
    and not2: "y < 0 \<or> 99 < y"
    and range: "- 271820 \<le> y" "y \<le> 275759" "\<bar>tza\<bar> \<le> msPerDay"
  shows "days tza (Some tv) =
           replicate (nat (WeekDay (MakeDate (MakeDay y m 1) 0))) None
           @ map Some [1..monthLength y m]"
proof -
  have mr: "0 \<le> m" "m \<le> 11"
    using m MonthFromTime_range[of "LocalTime tza tv"] by (auto simp: getMonth_def)
  have full: "MakeFullYear y = y"
    using not2 by (auto simp: MakeFullYear_def)
  have z: "(0::int) \<le> 0" "(0::int) < msPerDay" by (simp_all add: msPerDay_def)
  have ml: "1 \<le> monthLength y m" "monthLength y m \<le> 31"
    using monthLength_range[of y m] by simp_all
  have last: "Date_ymd tza (Some y) (Some (m + 1)) (Some 0)
                = Some (MakeDay y m (monthLength y m) * msPerDay - tza)"
    using TimeClip_in_range[OF range(1,2) mr ml z range(3)]
    by (simp add: Date_ymd_def full MakeDay_day0[OF mr] MakeTime_def MakeDate_def)
  have "getDaysInMonth tza (Some tv) = Some (DateFromTime (MakeDate (MakeDay y m (monthLength y m)) 0))"
    unfolding getDaysInMonth_def y m by (simp add: last getDate_def LocalTime_def MakeDate_def)
  then have dim: "getDaysInMonth tza (Some tv) = Some (monthLength y m)"
    using fields_of_MakeDay(3)[OF mr _ _ z, of "monthLength y m" y] ml by simp
  have first: "Date_ymd tza (Some y) (Some m) (Some 1) = Some (MakeDay y m 1 * msPerDay - tza)"
    using TimeClip_in_range[OF range(1,2) mr _ _ z range(3), of 1]
    by (simp add: Date_ymd_def full MakeTime_def MakeDate_def)
  have fd: "getFirstDayOfMonth tza (Some tv) = Some (WeekDay (MakeDate (MakeDay y m 1) 0))"
    unfolding getFirstDayOfMonth_def y m by (simp add: first getDay_def LocalTime_def MakeDate_def)
  show ?thesis
    unfolding days_def dim fd by (simp add: Let_def pushEmpty_eq pushDays_eq del: pushEmpty.simps pushDays.simps)
qed

text \<open>
  Claim C3. With the cursor in June of the year 50 (the deadline \<open>0050-06-15T00:00:00\<close>,
  which the effect on \<open>[form.deadline]\<close> copies into the cursor),
  \<open>new Date(50, 5, 1)\<close> is 1 June 1950, a Thursday, so the grid starts with four empty
  cells; 1 June of the year 50 is a Wednesday, weekday index 3.
\<close>

theorem C3_grid_two_digit_year:
  "getFullYear 0 (Date_parse 0 ''0050-06-15T00:00:00'') = Some 50
   \<and> getMonth 0 (Date_parse 0 ''0050-06-15T00:00:00'') = Some 5
   \<and> take 5 (days 0 (Date_parse 0 ''0050-06-15T00:00:00'')) = [None, None, None, None, Some 1]
   \<and> WeekDay (MakeDate (MakeDay 50 5 1) 0) = 3
   \<and> getFirstDayOfMonth 0 (Date_parse 0 ''0050-06-15T00:00:00'') = Some 4
   \<and> WeekDay (MakeDate (MakeDay 1950 5 1) 0) = 4"
  by code_simp

subsection \<open>Month navigation\<close>

text \<open>
  Navigation writes the cursor only. When the day of the cursor is at most 28, every
  month has that day, and the cursor moves to the same day of the month before or after,
  the year rolling over between December and January.
\<close>

lemma navigateMonth_only_cursor:
  "navigateMonth tza dir s = s\<lparr>calendarDate := calendarDate (navigateMonth tza dir s)\<rparr>"
  by (simp add: navigateMonth_def)

lemma navigateMonth_keeps_draft:
  "form (navigateMonth tza dir s) = form s"
  "deadlineDate (navigateMonth tza dir s) = deadlineDate s"
  "deadlineTime (navigateMonth tza dir s) = deadlineTime s"
  by (simp_all add: navigateMonth_def)

lemma navigateMonth_short_day:
  fixes dir :: direction
  assumes cd: "calendarDate s = Some tv"
    and y: "getFullYear tza (Some tv) = Some y" and m: "getMonth tza (Some tv) = Some m"
    and day: "getDate tza (Some tv) = Some dt" "dt \<le> 28"
    and range: "- 271819 \<le> y" "y \<le> 275758" "\<bar>tza\<bar> \<le> msPerDay"
  defines "mo \<equiv> (case dir of Prev \<Rightarrow> m - 1 | Next \<Rightarrow> m + 1)"
  shows "getFullYear tza (calendarDate (navigateMonth tza dir s)) = Some (y + mo div 12)"
    and "getMonth tza (calendarDate (navigateMonth tza dir s)) = Some (mo mod 12)"
    and "getDate tza (calendarDate (navigateMonth tza dir s)) = Some dt"
proof -
  define t where "t = LocalTime tza tv"
  have yt: "YearFromTime t = y" and mt: "MonthFromTime t = m" and dt: "DateFromTime t = dt"
    using y m day(1) by (simp_all add: getFullYear_def getMonth_def getDate_def t_def)
  have mr: "0 \<le> m" "m \<le> 11"
    using MonthFromTime_range[of t] mt by simp_all
  have d1: "1 \<le> dt" "dt \<le> 31"
    using DateFromTime_range[of t] dt by simp_all
  have mo: "- 1 \<le> mo" "mo \<le> 12"
    using mr by (cases dir; simp add: mo_def)+
  then have carry: "- 1 \<le> mo div 12" "mo div 12 \<le> 1"
    by presburger+
  have yr: "- 271820 \<le> y + mo div 12" "y + mo div 12 \<le> 275759"
    using range carry by linarith+
  have m12: "0 \<le> mo mod 12" "mo mod 12 \<le> 11"
    by simp_all
  have tod: "0 \<le> TimeWithinDay t" "TimeWithinDay t < msPerDay"
    using TimeWithinDay_range[of t] by simp_all
  have len: "dt \<le> monthLength (y + mo div 12) (mo mod 12)"
    using day(2) monthLength_range[of "y + mo div 12" "mo mod 12"] by linarith
  have nav: "calendarDate (navigateMonth tza dir s) = setMonth tza (Some tv) (Some mo)"
    by (cases dir) (simp_all add: navigateMonth_def cd m mo_def Let_def)
  have "setMonth tza (Some tv) (Some mo)
          = TimeClip (UTC tza (MakeDate (MakeDay (y + mo div 12) (mo mod 12) dt) (TimeWithinDay t)))"
    unfolding setMonth_def using MakeDay_carry[of y mo dt]
    by (simp add: Let_def t_def[symmetric] yt dt)
  also have "\<dots> = Some (MakeDate (MakeDay (y + mo div 12) (mo mod 12) dt) (TimeWithinDay t) - tza)"
    by (rule TimeClip_in_range[OF yr m12 d1 tod range(3)])
  finally have cur: "calendarDate (navigateMonth tza dir s)
      = Some (MakeDate (MakeDay (y + mo div 12) (mo mod 12) dt) (TimeWithinDay t) - tza)"
    unfolding nav .
  note f = fields_of_MakeDay[OF m12 d1(1) len tod]
  show "getFullYear tza (calendarDate (navigateMonth tza dir s)) = Some (y + mo div 12)"
    and "getMonth tza (calendarDate (navigateMonth tza dir s)) = Some (mo mod 12)"
    and "getDate tza (calendarDate (navigateMonth tza dir s)) = Some dt"
    unfolding cur by (simp_all add: getFullYear_def getMonth_def getDate_def LocalTime_def f)
qed

text \<open>
  Claim C8. With the cursor on 31 January 2024, 12:00 (the state of the first render on
  that day), \<open>navigateMonth('next')\<close> asks for 31 February, which \<open>setMonth\<close> carries to
  2 March: the visible month advances by two. With the cursor on 31 March 2024,
  \<open>navigateMonth('prev')\<close> likewise lands on 2 March: the visible month does not change.
\<close>

theorem C8_navigateMonth_skips:
  "getMonth 0 (calendarDate (initialState 1706702400000)) = Some 0
   \<and> getDate 0 (calendarDate (initialState 1706702400000)) = Some 31
   \<and> getMonth 0 (calendarDate (navigateMonth 0 Next (initialState 1706702400000))) = Some 2
   \<and> getDate 0 (calendarDate (navigateMonth 0 Next (initialState 1706702400000))) = Some 2
   \<and> getMonth 0 (calendarDate (initialState 1711886400000)) = Some 2
   \<and> getDate 0 (calendarDate (initialState 1711886400000)) = Some 31
   \<and> getMonth 0 (calendarDate (navigateMonth 0 Prev (initialState 1711886400000))) = Some 2"
  by code_simp

end
